theory Spec2Isabelle
  imports Complex_Main
begin

section \<open>The restaurant directory controller\<close>

text \<open>
  A shallow embedding of \<^verbatim>\<open>controller.py\<close>: the class \<^verbatim>\<open>Controller\<close> keeps a
  filtered, distance-sorted list of restaurants, the currently selected restaurant and a
  reference coordinate, and talks to one MongoDB collection. The collection is modelled as
  the list of its documents in natural (insertion) order; every method becomes a function
  from the controller state to either the new state, or an exception together with the
  state the attributes were left in when it was raised.

  Python floats are idealised as real numbers: a distance is the exact value of the
  formula, rounded once, so it can differ from the float result in the last digit kept
  where that one falls next to a rounding boundary, and there is no NaN or infinity. The
  MongoDB \<^verbatim>\<open>_id\<close> field, which no method reads, is left out. Every stored document
  is taken to have the fields of \<^verbatim>\<open>EMPTY_RSTRT\<close>, strings where it has strings. The
  store's regular-expression matcher is not part of the repository: the search takes it as
  a parameter.
\<close>

subsection \<open>Documents\<close>

record grade_doc =
  grade :: string
  score :: int
  date :: int

text \<open>
  \<^verbatim>\<open>address.coord\<close> is \<^verbatim>\<open>[lng, lat]\<close> whose components may be \<^verbatim>\<open>None\<close>
  (as in \<^verbatim>\<open>EMPTY_RSTRT\<close>), or is absent altogether (null or the empty list), which
  is \<open>None\<close> here.
\<close>

type_synonym coord_val = "(real option \<times> real option) option"

record address_doc =
  building :: string
  coord :: coord_val
  street :: string
  zipcode :: string

text \<open>
  A grade is \<open>None\<close> while MongoDB holds a null in its place, between the two updates of
  \<^verbatim>\<open>del_grade\<close>.
\<close>

record restaurant =
  address :: address_doc
  borough :: string
  cuisine :: string
  grades :: "grade_doc option list"
  name :: string
  restaurant_id :: string

text \<open>
  An element of \<^verbatim>\<open>filtered_rstrts\<close> is a dict too. The ones \<^verbatim>\<open>update_rstrts\<close> builds
  have the keys \<^verbatim>\<open>name\<close>, \<^verbatim>\<open>restaurant_id\<close> and \<^verbatim>\<open>dist\<close>; the one
  \<^verbatim>\<open>new_rstrt\<close> inserts is the whole new document and has no \<^verbatim>\<open>dist\<close>. A key that
  is absent is \<open>None\<close>.
\<close>

record entry =
  e_restaurant_id :: string
  e_name :: string
  e_dist :: "real option"
  e_address :: "address_doc option"
  e_borough :: "string option"
  e_cuisine :: "string option"
  e_grades :: "grade_doc option list option"

record controller =
  filtered_rstrts :: "entry list"
  cur_index :: "int option"
  cur_rstrt :: "restaurant option"
  cur_coord :: "real \<times> real"
  mycol :: "restaurant list"

datatype py_error = IndexError | KeyError | ValueError | DuplicateKeyError | OperationFailure

type_synonym outcome = "(py_error \<times> controller) + controller"

subsection \<open>Python built-ins\<close>

text \<open>\<^verbatim>\<open>xs[i]\<close>: a negative index counts from the end, an index out of range raises.\<close>

definition py_index :: "'a list \<Rightarrow> int \<Rightarrow> 'a option" where
  "py_index xs i =
     (if 0 \<le> i \<and> i < int (length xs) then Some (xs ! nat i)
      else if i < 0 \<and> - int (length xs) \<le> i then Some (xs ! nat (int (length xs) + i))
      else None)"

text \<open>\<^verbatim>\<open>del xs[i]\<close>, with the same indexing.\<close>

definition del_at :: "nat \<Rightarrow> 'a list \<Rightarrow> 'a list" where
  "del_at k xs = take k xs @ drop (Suc k) xs"

definition py_del :: "'a list \<Rightarrow> int \<Rightarrow> 'a list option" where
  "py_del xs i =
     (if 0 \<le> i \<and> i < int (length xs) then Some (del_at (nat i) xs)
      else if i < 0 \<and> - int (length xs) \<le> i then Some (del_at (nat (int (length xs) + i)) xs)
      else None)"

text \<open>Truth value of a number or \<^verbatim>\<open>None\<close>: \<^verbatim>\<open>None\<close> and zero are false.\<close>

definition truthy :: "real option \<Rightarrow> bool" where
  "truthy v = (case v of None \<Rightarrow> False | Some x \<Rightarrow> x \<noteq> 0)"

definition digit_char :: "nat \<Rightarrow> char" where
  "digit_char d = ''0123456789'' ! d"

definition digit_val :: "char \<Rightarrow> nat option" where
  "digit_val c = map_of (zip ''0123456789'' [0, 1, 2, 3, 4, 5, 6, 7, 8, 9]) c"

text \<open>\<^verbatim>\<open>str(n)\<close> for an integer.\<close>

function str_nat :: "nat \<Rightarrow> string" where
  "str_nat n = (if n < 10 then [digit_char n] else str_nat (n div 10) @ [digit_char (n mod 10)])"
  by pat_completeness auto
termination
  by (relation "measure (\<lambda>n. n)") auto

declare str_nat.simps [simp del]

definition py_str :: "int \<Rightarrow> string" where
  "py_str i = (if i < 0 then CHR ''-'' # str_nat (nat (- i)) else str_nat (nat i))"

text \<open>
  \<^verbatim>\<open>int(s)\<close> for a string: surrounding whitespace (the codes 9 to 13, and the blank)
  is dropped, a sign may come first, then decimal digits, single underscores allowed
  between two digits; anything else raises \<^verbatim>\<open>ValueError\<close>. (Characters outside ASCII
  are not modelled.)
\<close>

definition is_space :: "char \<Rightarrow> bool" where
  "is_space c = (let k = (of_char c :: nat) in (9 \<le> k \<and> k \<le> 13) \<or> k = 32)"

definition strip :: "string \<Rightarrow> string" where
  "strip s = rev (dropWhile is_space (rev (dropWhile is_space s)))"

text \<open>
  \<open>digits_val acc prev s\<close> reads the rest of a digit string; \<open>prev\<close> says that the
  character before was a digit (an underscore must stand between two digits).
\<close>

fun digits_val :: "nat \<Rightarrow> bool \<Rightarrow> string \<Rightarrow> nat option" where
  "digits_val acc prev [] = (if prev then Some acc else None)"
| "digits_val acc prev (c # cs) =
     (if c = CHR ''_'' then (if prev \<and> cs \<noteq> [] then digits_val acc False cs else None)
      else (case digit_val c of
              None \<Rightarrow> None
            | Some d \<Rightarrow> digits_val (acc * 10 + d) True cs))"

definition py_int :: "string \<Rightarrow> int option" where
  "py_int s =
     (case strip s of
        [] \<Rightarrow> None
      | c # cs \<Rightarrow>
          if c = CHR ''-'' then map_option (\<lambda>n. - int n) (digits_val 0 False cs)
          else if c = CHR ''+'' then map_option int (digits_val 0 False cs)
          else map_option int (digits_val 0 False (c # cs)))"

subsection \<open>The distance\<close>

definition radians :: "real \<Rightarrow> real" where
  "radians x = x * pi / 180"

text \<open>\<^verbatim>\<open>round(x, 3)\<close>: to the nearest thousandth, a tie going to the even one.\<close>

definition py_round3 :: "real \<Rightarrow> real" where
  "py_round3 x =
     (let y = x * 1000; f = \<lfloor>y\<rfloor>; d = y - of_int f
      in of_int (if d < 1 / 2 then f else if 1 / 2 < d then f + 1
                 else if even f then f else f + 1) / 1000)"

definition geodistance :: "real \<Rightarrow> real \<Rightarrow> real \<Rightarrow> real \<Rightarrow> real" where
  "geodistance lng1 lat1 lng2 lat2 =
     (let lng1 = radians lng1; lat1 = radians lat1; lng2 = radians lng2; lat2 = radians lat2;
          dlon = lng2 - lng1;
          dlat = lat2 - lat1;
          a = (sin (dlat / 2))\<^sup>2 + cos lat1 * cos lat2 * (sin (dlon / 2))\<^sup>2;
          distance = 2 * arcsin (sqrt a) * 6371 * 1000
      in py_round3 (distance / 1000))"

definition sentinel :: real where
  "sentinel = 99999.99"

text \<open>
  The Haversine distance in the spec's words: the great-circle distance on a sphere of
  radius 6371 km, from the haversine \<open>(1 - cos \<theta>) / 2\<close> of the central angle.
\<close>

definition hav :: "real \<Rightarrow> real" where
  "hav \<theta> = (1 - cos \<theta>) / 2"

definition haversine_km :: "real \<Rightarrow> real \<Rightarrow> real \<Rightarrow> real \<Rightarrow> real" where
  "haversine_km lng1 lat1 lng2 lat2 =
     2 * 6371 * arcsin (sqrt (hav (radians lat2 - radians lat1)
        + cos (radians lat1) * cos (radians lat2) * hav (radians lng2 - radians lng1)))"

subsection \<open>Regular expressions of the store\<close>

text \<open>
  \<^verbatim>\<open>update_rstrts\<close> sends MongoDB the pattern \<^verbatim>\<open>"(.*)(%s)(.*)" % text\<close> with the
  options \<^verbatim>\<open>"$i"\<close>, and the store decides which strings match it and whether it is a
  pattern at all. A matcher is what the store brings along: \<open>accepts\<close> says whether a
  pattern with its options is taken, \<open>matches\<close> whether a string field matches it. The
  search below works for whatever matcher it is given.
\<close>

record matcher =
  accepts :: "string \<Rightarrow> string \<Rightarrow> bool"
  matches :: "string \<Rightarrow> string \<Rightarrow> string \<Rightarrow> bool"

text \<open>
  What follows is a reference semantics for a fragment of the pattern language, the one
  the patterns of a search for a plain text need: literal characters, \<^verbatim>\<open>.\<close> (any
  character but a newline), a postfix \<^verbatim>\<open>*\<close> and groups in parentheses, matched anywhere
  in the subject. It says nothing about a pattern that uses another metacharacter: such a
  pattern has no reading in the fragment (\<open>None\<close>).
\<close>

datatype re = Zero | One | Chr char | Dot | Plus re re | Times re re | Star re

definition lower_char :: "char \<Rightarrow> char" where
  "lower_char c =
     (case map_of (zip ''ABCDEFGHIJKLMNOPQRSTUVWXYZ'' ''abcdefghijklmnopqrstuvwxyz'') c of
        None \<Rightarrow> c
      | Some l \<Rightarrow> l)"

definition char_eq :: "bool \<Rightarrow> char \<Rightarrow> char \<Rightarrow> bool" where
  "char_eq ci c d = (if ci then lower_char c = lower_char d else c = d)"

fun nullable :: "re \<Rightarrow> bool" where
  "nullable Zero = False"
| "nullable One = True"
| "nullable (Chr c) = False"
| "nullable Dot = False"
| "nullable (Plus r s) = (nullable r \<or> nullable s)"
| "nullable (Times r s) = (nullable r \<and> nullable s)"
| "nullable (Star r) = True"

text \<open>What is left of \<open>r\<close> after reading the character \<open>c\<close>.\<close>

fun deriv :: "bool \<Rightarrow> char \<Rightarrow> re \<Rightarrow> re" where
  "deriv ci c Zero = Zero"
| "deriv ci c One = Zero"
| "deriv ci c (Chr d) = (if char_eq ci c d then One else Zero)"
| "deriv ci c Dot = (if c = CHR 0x0A then Zero else One)"
| "deriv ci c (Plus r s) = Plus (deriv ci c r) (deriv ci c s)"
| "deriv ci c (Times r s) =
     (if nullable r then Plus (Times (deriv ci c r) s) (deriv ci c s)
      else Times (deriv ci c r) s)"
| "deriv ci c (Star r) = Times (deriv ci c r) (Star r)"

text \<open>Some prefix of the subject matches.\<close>

fun match_prefix :: "bool \<Rightarrow> re \<Rightarrow> string \<Rightarrow> bool" where
  "match_prefix ci r [] = nullable r"
| "match_prefix ci r (c # cs) = (nullable r \<or> match_prefix ci (deriv ci c r) cs)"

text \<open>Some substring of the subject matches: the store's search is not anchored.\<close>

fun re_search :: "bool \<Rightarrow> re \<Rightarrow> string \<Rightarrow> bool" where
  "re_search ci r [] = nullable r"
| "re_search ci r (c # cs) = (match_prefix ci r (c # cs) \<or> re_search ci r cs)"

definition seq_of :: "re list \<Rightarrow> re" where
  "seq_of rs = foldr Times rs One"

definition unsupported :: "char \<Rightarrow> bool" where
  "unsupported c = (c \<in> set ''[]{}+?^$|'' \<or> c = CHR 0x5C)"

fun is_star :: "re \<Rightarrow> bool" where
  "is_star (Star r) = True"
| "is_star r = False"

text \<open>
  One pass over the pattern with a stack of the open groups, each holding the items read
  so far in reverse.
\<close>

fun parse_re :: "re list list \<Rightarrow> string \<Rightarrow> re option" where
  "parse_re st [] = (case st of [grp] \<Rightarrow> Some (seq_of (rev grp)) | _ \<Rightarrow> None)"
| "parse_re st (c # cs) =
     (if c = CHR ''('' then parse_re ([] # st) cs
      else if c = CHR '')'' then
        (case st of
           grp # nxt # rest \<Rightarrow> parse_re ((seq_of (rev grp) # nxt) # rest) cs
         | _ \<Rightarrow> None)
      else if c = CHR ''*'' then
        (case st of
           (x # grp) # rest \<Rightarrow>
             if is_star x then None else parse_re ((Star x # grp) # rest) cs
         | _ \<Rightarrow> None)
      else if c = CHR ''.'' then
        (case st of grp # rest \<Rightarrow> parse_re ((Dot # grp) # rest) cs | [] \<Rightarrow> None)
      else if unsupported c then None
      else
        (case st of grp # rest \<Rightarrow> parse_re ((Chr c # grp) # rest) cs | [] \<Rightarrow> None))"

text \<open>
  \<^verbatim>\<open>{"$regex": pattern, "$options": options}\<close> applied to a string field, for a pattern
  of the fragment; \<open>None\<close> when the pattern is not in the fragment. Of the option
  characters only \<^verbatim>\<open>i\<close> (ignore letter case) has a meaning here.
\<close>

definition regex_match :: "string \<Rightarrow> string \<Rightarrow> string \<Rightarrow> bool option" where
  "regex_match pattern options subject =
     map_option (\<lambda>r. re_search (CHR ''i'' \<in> set options) r subject) (parse_re [[]] pattern)"

text \<open>
  The matcher that knows the fragment and nothing more. It serves the concrete checks
  below, whose patterns are all in the fragment; on those every matcher that implements
  the pattern language answers as this one does.
\<close>

definition fragment_matcher :: matcher where
  "fragment_matcher =
     \<lparr>accepts = (\<lambda>pattern options. parse_re [[]] pattern \<noteq> None),
      matches = (\<lambda>pattern options subject. regex_match pattern options subject = Some True)\<rparr>"

subsection \<open>The collection\<close>

type_synonym query = "(string \<times> string \<times> string) list"

definition get_field :: "string \<Rightarrow> restaurant \<Rightarrow> string option" where
  "get_field path d =
     (if path = ''name'' then Some (name d)
      else if path = ''borough'' then Some (borough d)
      else if path = ''address.street'' then Some (street (address d))
      else if path = ''address.zipcode'' then Some (zipcode (address d))
      else None)"

definition constraint_holds
    :: "matcher \<Rightarrow> restaurant \<Rightarrow> string \<times> string \<times> string \<Rightarrow> bool" where
  "constraint_holds eng d c =
     (case c of (path, pattern, options) \<Rightarrow>
        (case get_field path d of
           None \<Rightarrow> False
         | Some v \<Rightarrow> matches eng pattern options v))"

text \<open>
  \<^verbatim>\<open>list(mycol.find(query, ...))\<close>: the documents that satisfy every constraint of the
  query, in natural order; the query fails as a whole (\<open>None\<close>) when the store's matcher
  rejects one of its patterns.
\<close>

definition mycol_find :: "matcher \<Rightarrow> query \<Rightarrow> restaurant list \<Rightarrow> restaurant list option" where
  "mycol_find eng q ds =
     (if list_all (\<lambda>(path, pattern, options). accepts eng pattern options) q
      then Some (filter (\<lambda>d. list_all (constraint_holds eng d) q) ds)
      else None)"

text \<open>\<^verbatim>\<open>update_one\<close> changes the first document that matches.\<close>

fun update_one :: "(restaurant \<Rightarrow> bool) \<Rightarrow> (restaurant \<Rightarrow> restaurant) \<Rightarrow> restaurant list
    \<Rightarrow> restaurant list" where
  "update_one p f [] = []"
| "update_one p f (d # ds) = (if p d then f d # ds else d # update_one p f ds)"

definition delete_many :: "(restaurant \<Rightarrow> bool) \<Rightarrow> restaurant list \<Rightarrow> restaurant list" where
  "delete_many p ds = filter (\<lambda>d. \<not> p d) ds"

text \<open>
  \<^verbatim>\<open>insert\<close> under the unique index that \<^verbatim>\<open>connect\<close> creates on
  \<^verbatim>\<open>restaurant_id\<close>: \<open>None\<close> stands for the duplicate-key error.
\<close>

definition mycol_insert :: "restaurant \<Rightarrow> restaurant list \<Rightarrow> restaurant list option" where
  "mycol_insert d ds =
     (if restaurant_id d \<in> set (map restaurant_id ds) then None else Some (ds @ [d]))"

text \<open>The store orders strings byte by byte, a proper prefix coming first.\<close>

fun str_less :: "string \<Rightarrow> string \<Rightarrow> bool" where
  "str_less [] [] = False"
| "str_less [] (y # ys) = True"
| "str_less (x # xs) [] = False"
| "str_less (x # xs) (y # ys) =
     ((of_char x :: nat) < of_char y \<or> (x = y \<and> str_less xs ys))"

text \<open>\<^verbatim>\<open>find_one(sort=[('restaurant_id', -1)])\<close>: a document whose id is greatest.\<close>

fun find_one_sorted_desc :: "restaurant list \<Rightarrow> restaurant option" where
  "find_one_sorted_desc [] = None"
| "find_one_sorted_desc (d # ds) =
     (case find_one_sorted_desc ds of
        None \<Rightarrow> Some d
      | Some m \<Rightarrow> if str_less (restaurant_id d) (restaurant_id m) then Some m else Some d)"

subsection \<open>The controller's methods\<close>

definition has_id :: "string \<Rightarrow> restaurant \<Rightarrow> bool" where
  "has_id rid d = (restaurant_id d = rid)"

definition update_cur_rstrt :: "controller \<Rightarrow> int option \<Rightarrow> outcome" where
  "update_cur_rstrt s index =
     (let s1 = s\<lparr>cur_index := None, cur_rstrt := None\<rparr>
      in case index of
           None \<Rightarrow> Inr s1
         | Some i \<Rightarrow>
             let s2 = s1\<lparr>cur_index := Some i\<rparr>
             in (case py_index (filtered_rstrts s2) i of
                   None \<Rightarrow> Inl (IndexError, s2)
                 | Some e \<Rightarrow>
                     (case filter (has_id (e_restaurant_id e)) (mycol s2) of
                        [] \<Rightarrow> Inl (IndexError, s2)
                      | d # _ \<Rightarrow> Inr (s2\<lparr>cur_rstrt := Some d\<rparr>))))"

definition regex_of :: "string \<Rightarrow> string" where
  "regex_of text = ''(.*)('' @ text @ '')(.*)''"

definition constraint_for :: "(string \<rightharpoonup> string) \<Rightarrow> string \<Rightarrow> string \<Rightarrow> query" where
  "constraint_for condition key path =
     (case condition key of
        None \<Rightarrow> []
      | Some text \<Rightarrow> if \<not> text = [] then [(path, regex_of text, ''$i'')] else [])"

definition build_query :: "(string \<rightharpoonup> string) \<Rightarrow> query" where
  "build_query condition =
     constraint_for condition ''name'' ''name''
     @ constraint_for condition ''borough'' ''borough''
     @ constraint_for condition ''street'' ''address.street''
     @ constraint_for condition ''zipcode'' ''address.zipcode''"

text \<open>The projection \<^verbatim>\<open>{"name": 1, "restaurant_id": 1, "address.coord": 1}\<close>.\<close>

record projected =
  p_name :: string
  p_restaurant_id :: string
  p_coord :: coord_val

definition project :: "restaurant \<Rightarrow> projected" where
  "project d = \<lparr>p_name = name d, p_restaurant_id = restaurant_id d, p_coord = coord (address d)\<rparr>"

text \<open>The body of the loop of \<^verbatim>\<open>update_rstrts\<close>.\<close>

definition with_dist :: "real \<times> real \<Rightarrow> projected \<Rightarrow> entry" where
  "with_dist cc p =
     \<lparr>e_restaurant_id = p_restaurant_id p, e_name = p_name p,
      e_dist = Some (case p_coord p of
                       None \<Rightarrow> sentinel
                     | Some (c0, c1) \<Rightarrow>
                         if truthy c0 \<and> truthy c1
                         then geodistance (the c0) (the c1) (fst cc) (snd cc)
                         else sentinel),
      e_address = None, e_borough = None, e_cuisine = None, e_grades = None\<rparr>"

text \<open>
  \<^verbatim>\<open>rstrts.sort(key=lambda r: r['dist'])\<close>: a stable sort; the key raises
  \<^verbatim>\<open>KeyError\<close> on an element without \<^verbatim>\<open>dist\<close>, and the list is then left as it was.
\<close>

definition sort_by_dist :: "entry list \<Rightarrow> entry list option" where
  "sort_by_dist es =
     (if list_all (\<lambda>e. e_dist e \<noteq> None) es then Some (sort_key (\<lambda>e. the (e_dist e)) es)
      else None)"

definition update_rstrts
    :: "matcher \<Rightarrow> controller \<Rightarrow> (string \<rightharpoonup> string) \<Rightarrow> outcome" where
  "update_rstrts eng s condition =
     (case mycol_find eng (build_query condition) (mycol s) of
        None \<Rightarrow> Inl (OperationFailure, s)
      | Some ds \<Rightarrow>
          let s1 = s\<lparr>filtered_rstrts := map (with_dist (cur_coord s)) (map project ds)\<rparr>
          in (case sort_by_dist (filtered_rstrts s1) of
                None \<Rightarrow> Inl (KeyError, s1)
              | Some es \<Rightarrow> Inr (s1\<lparr>filtered_rstrts := es\<rparr>)))"

record address_fields =
  f_building :: string
  f_street :: string
  f_zipcode :: string

definition edit_address :: "controller \<Rightarrow> address_fields \<Rightarrow> outcome" where
  "edit_address s docs =
     (case cur_rstrt s of
        None \<Rightarrow> Inr s
      | Some r \<Rightarrow>
          let docs' = \<lparr>building = f_building docs, coord = coord (address r),
                       street = f_street docs, zipcode = f_zipcode docs\<rparr>
          in Inr (s\<lparr>mycol := update_one (has_id (restaurant_id r)) (\<lambda>d. d\<lparr>address := docs'\<rparr>)
                               (mycol s),
                    cur_rstrt := Some (r\<lparr>address := docs'\<rparr>)\<rparr>))"

definition set_coord :: "real option \<Rightarrow> real option \<Rightarrow> restaurant \<Rightarrow> restaurant" where
  "set_coord lng lat d = d\<lparr>address := (address d)\<lparr>coord := Some (lng, lat)\<rparr>\<rparr>"

text \<open>
  The loop of \<^verbatim>\<open>edit_coord\<close>: the first element with the id gets the distance and the
  method returns; \<open>None\<close> when the loop runs to its end.
\<close>

fun patch_dist :: "string \<Rightarrow> real \<Rightarrow> entry list \<Rightarrow> entry list option" where
  "patch_dist rid x [] = None"
| "patch_dist rid x (e # es) =
     (if e_restaurant_id e = rid then Some (e\<lparr>e_dist := Some x\<rparr> # es)
      else map_option ((#) e) (patch_dist rid x es))"

definition edit_coord :: "controller \<Rightarrow> real option \<Rightarrow> real option \<Rightarrow> outcome" where
  "edit_coord s lng lat =
     (case cur_rstrt s of
        None \<Rightarrow> Inr s
      | Some r \<Rightarrow>
          let s1 = s\<lparr>mycol := update_one (has_id (restaurant_id r)) (set_coord lng lat) (mycol s),
                     cur_rstrt := Some (set_coord lng lat r)\<rparr>;
              x = (if truthy lng \<and> truthy lat
                   then geodistance (the lng) (the lat) (fst (cur_coord s)) (snd (cur_coord s))
                   else sentinel)
          in (case patch_dist (restaurant_id r) x (filtered_rstrts s1) of
                Some es \<Rightarrow> Inr (s1\<lparr>filtered_rstrts := es\<rparr>)
              | None \<Rightarrow>
                  (case sort_by_dist (filtered_rstrts s1) of
                     None \<Rightarrow> Inl (KeyError, s1)
                   | Some es \<Rightarrow> Inr (s1\<lparr>filtered_rstrts := es\<rparr>))))"

definition del_all :: "controller \<Rightarrow> outcome" where
  "del_all s =
     Inr (s\<lparr>mycol := delete_many
                        (\<lambda>d. restaurant_id d \<in> set (map e_restaurant_id (filtered_rstrts s)))
                        (mycol s),
            filtered_rstrts := [],
            cur_rstrt := None\<rparr>)"

definition EMPTY_RSTRT :: restaurant where
  "EMPTY_RSTRT =
     \<lparr>address = \<lparr>building = '''', coord = Some (None, None), street = '''', zipcode = ''''\<rparr>,
      borough = '''', cuisine = '''', grades = [], name = '''', restaurant_id = ''''\<rparr>"

definition get_max_id :: "controller \<Rightarrow> string" where
  "get_max_id s =
     (case find_one_sorted_desc (mycol s) of
        None \<Rightarrow> ''100000000''
      | Some rstrt \<Rightarrow> restaurant_id rstrt)"

text \<open>The new document as an element of \<^verbatim>\<open>filtered_rstrts\<close>: all its keys, no \<^verbatim>\<open>dist\<close>.\<close>

definition entry_of :: "restaurant \<Rightarrow> entry" where
  "entry_of d =
     \<lparr>e_restaurant_id = restaurant_id d, e_name = name d, e_dist = None,
      e_address = Some (address d), e_borough = Some (borough d),
      e_cuisine = Some (cuisine d), e_grades = Some (grades d)\<rparr>"

definition new_rstrt :: "controller \<Rightarrow> outcome" where
  "new_rstrt s =
     (case py_int (get_max_id s) of
        None \<Rightarrow> Inl (ValueError, s)
      | Some m \<Rightarrow>
          let new_r = EMPTY_RSTRT\<lparr>name := ''untitled'', restaurant_id := py_str (m + 1)\<rparr>;
              s1 = s\<lparr>filtered_rstrts := entry_of new_r # filtered_rstrts s\<rparr>
          in (case mycol_insert new_r (mycol s1) of
                None \<Rightarrow> Inl (DuplicateKeyError, s1)
              | Some ds \<Rightarrow> Inr (s1\<lparr>mycol := ds\<rparr>)))"

text \<open>
  \<^verbatim>\<open>{'$unset': {'grades.' + str(index): 1}}\<close> puts a null at that position of the array
  when there is one; \<^verbatim>\<open>{'$pull': {'grades': None}}\<close> then removes the nulls.
\<close>

definition unset_grade :: "int \<Rightarrow> restaurant \<Rightarrow> restaurant" where
  "unset_grade index d =
     (if 0 \<le> index \<and> index < int (length (grades d))
      then d\<lparr>grades := (grades d)[nat index := None]\<rparr> else d)"

definition pull_null :: "restaurant \<Rightarrow> restaurant" where
  "pull_null d = d\<lparr>grades := filter (\<lambda>g. g \<noteq> None) (grades d)\<rparr>"

definition del_grade :: "controller \<Rightarrow> int \<Rightarrow> outcome" where
  "del_grade s index =
     (case cur_rstrt s of
        None \<Rightarrow> Inr s
      | Some rstrt \<Rightarrow>
          let rid = restaurant_id rstrt;
              s1 = s\<lparr>mycol := update_one (has_id rid) (unset_grade index) (mycol s)\<rparr>;
              s2 = s1\<lparr>mycol := update_one (has_id rid) pull_null (mycol s1)\<rparr>
          in (case py_del (grades rstrt) index of
                None \<Rightarrow> Inl (IndexError, s2)
              | Some g \<Rightarrow> Inr (s2\<lparr>cur_rstrt := Some (rstrt\<lparr>grades := g\<rparr>)\<rparr>)))"

subsection \<open>What a pattern matches\<close>

text \<open>
  The set of strings a pattern of the fragment matches as a whole, against which the
  reference semantics above is proved below.
\<close>

definition conc :: "string set \<Rightarrow> string set \<Rightarrow> string set" where
  "conc A B = {u @ v | u v. u \<in> A \<and> v \<in> B}"

inductive_set star :: "string set \<Rightarrow> string set" for A :: "string set" where
  star_empty: "[] \<in> star A"
| star_more: "u \<in> A \<Longrightarrow> v \<in> star A \<Longrightarrow> u @ v \<in> star A"

fun lang :: "bool \<Rightarrow> re \<Rightarrow> string set" where
  "lang ci Zero = {}"
| "lang ci One = {[]}"
| "lang ci (Chr d) = {[c] | c. char_eq ci c d}"
| "lang ci Dot = {[c] | c. c \<noteq> CHR 0x0A}"
| "lang ci (Plus r s) = lang ci r \<union> lang ci s"
| "lang ci (Times r s) = conc (lang ci r) (lang ci s)"
| "lang ci (Star r) = star (lang ci r)"

text \<open>A text without a character that means something in a pattern.\<close>

definition plain :: "string \<Rightarrow> bool" where
  "plain t = list_all (\<lambda>c. c \<notin> set ''().*'' \<and> \<not> unsupported c) t"

text \<open>
  Containment in the spec's words: the text occurs in the field as a substring, letter
  case ignored.
\<close>

fun starts_with_ignoring_case :: "string \<Rightarrow> string \<Rightarrow> bool" where
  "starts_with_ignoring_case [] v = True"
| "starts_with_ignoring_case (c # cs) [] = False"
| "starts_with_ignoring_case (c # cs) (d # ds) =
     (lower_char c = lower_char d \<and> starts_with_ignoring_case cs ds)"

fun contains_ignoring_case :: "string \<Rightarrow> string \<Rightarrow> bool" where
  "contains_ignoring_case t [] = starts_with_ignoring_case t []"
| "contains_ignoring_case t (d # ds) =
     (starts_with_ignoring_case t (d # ds) \<or> contains_ignoring_case t ds)"

text \<open>
  The constraint one key of the condition puts on the field it names: none when the key
  is absent or empty, else that the field matches, for the store's matcher, the pattern
  made from the text.
\<close>

definition constraint_met :: "matcher \<Rightarrow> (string \<rightharpoonup> string) \<Rightarrow> string \<Rightarrow> string \<Rightarrow> bool" where
  "constraint_met eng condition key v =
     (case condition key of
        None \<Rightarrow> True
      | Some t \<Rightarrow> t = [] \<or> matches eng (regex_of t) ''$i'' v)"

text \<open>The store takes the pattern that a key of the condition gives rise to, if any.\<close>

definition pattern_accepted :: "matcher \<Rightarrow> (string \<rightharpoonup> string) \<Rightarrow> string \<Rightarrow> bool" where
  "pattern_accepted eng condition key =
     (case condition key of
        None \<Rightarrow> True
      | Some t \<Rightarrow> t = [] \<or> accepts eng (regex_of t) ''$i'')"

text \<open>
  A matcher implements the fragment when it takes every pattern of the fragment and
  matches it, under the options the search sends, as the reference semantics says.
\<close>

definition implements_fragment :: "matcher \<Rightarrow> bool" where
  "implements_fragment eng =
     (\<forall>pattern r. parse_re [[]] pattern = Some r \<longrightarrow>
        accepts eng pattern ''$i''
        \<and> (\<forall>v. matches eng pattern ''$i'' v = re_search True r v))"

subsection \<open>Example data\<close>

text \<open>Small documents, list elements and controller states for the concrete checks below.\<close>

definition example_rstrt :: "string \<Rightarrow> string \<Rightarrow> coord_val \<Rightarrow> restaurant" where
  "example_rstrt rid nm c =
     \<lparr>address = \<lparr>building = '''', coord = c, street = '''', zipcode = ''''\<rparr>,
      borough = '''', cuisine = '''', grades = [], name = nm, restaurant_id = rid\<rparr>"

definition example_entry :: "string \<Rightarrow> string \<Rightarrow> real \<Rightarrow> entry" where
  "example_entry rid nm x =
     \<lparr>e_restaurant_id = rid, e_name = nm, e_dist = Some x,
      e_address = None, e_borough = None, e_cuisine = None, e_grades = None\<rparr>"

definition example_state
    :: "entry list \<Rightarrow> int option \<Rightarrow> restaurant option \<Rightarrow> restaurant list \<Rightarrow> controller" where
  "example_state es i r ds =
     \<lparr>filtered_rstrts = es, cur_index = i, cur_rstrt = r, cur_coord = (1, 1), mycol = ds\<rparr>"

definition example_grade :: "string \<Rightarrow> grade_doc option" where
  "example_grade g = Some \<lparr>grade = g, score = 10, date = 0\<rparr>"

section \<open>Properties\<close>

subsection \<open>Auxiliary facts\<close>

lemma with_dist_has_dist: "list_all (\<lambda>e. e_dist e \<noteq> None) (map (with_dist cc) ps)"
  by (simp add: list_all_iff with_dist_def)

lemma sort_by_dist_Some:
  "list_all (\<lambda>e. e_dist e \<noteq> None) es \<Longrightarrow>
   sort_by_dist es = Some (sort_key (\<lambda>e. the (e_dist e)) es)"
  by (simp add: sort_by_dist_def)

lemma update_rstrts_Some:
  assumes "mycol_find eng (build_query c) (mycol s) = Some ds"
  shows "update_rstrts eng s c = Inr (s\<lparr>filtered_rstrts :=
           sort_key (\<lambda>e. the (e_dist e)) (map (with_dist (cur_coord s)) (map project ds))\<rparr>)"
proof -
  have "sort_by_dist (map (with_dist (cur_coord s)) (map project ds))
        = Some (sort_key (\<lambda>e. the (e_dist e)) (map (with_dist (cur_coord s)) (map project ds)))"
    by (rule sort_by_dist_Some) (rule with_dist_has_dist)
  with assms show ?thesis
    by (simp add: update_rstrts_def Let_def del: map_map)
qed

lemma update_rstrts_Inr_iff:
  "update_rstrts eng s c = Inr s' \<longleftrightarrow>
     (\<exists>ds. mycol_find eng (build_query c) (mycol s) = Some ds \<and>
        s' = s\<lparr>filtered_rstrts :=
           sort_key (\<lambda>e. the (e_dist e)) (map (with_dist (cur_coord s)) (map project ds))\<rparr>)"
proof (cases "mycol_find eng (build_query c) (mycol s)")
  case None
  then show ?thesis by (simp add: update_rstrts_def)
next
  case (Some ds)
  then show ?thesis using update_rstrts_Some [OF Some] by auto
qed

text \<open>A search raises only when the store rejects the query, and then changes nothing.\<close>

lemma update_rstrts_Inl:
  "update_rstrts eng s c = Inl (err, t) \<Longrightarrow> err = OperationFailure \<and> t = s"
proof (cases "mycol_find eng (build_query c) (mycol s)")
  case None
  then show "update_rstrts eng s c = Inl (err, t) \<Longrightarrow> err = OperationFailure \<and> t = s"
    by (simp add: update_rstrts_def)
next
  case (Some ds)
  show "update_rstrts eng s c = Inl (err, t) \<Longrightarrow> err = OperationFailure \<and> t = s"
    using update_rstrts_Some [OF Some] by simp
qed

lemma build_query_empty: "build_query Map.empty = []"
  by (simp add: build_query_def constraint_for_def)

text \<open>A search without a filter returns every document and never raises.\<close>

lemma update_rstrts_empty:
  "update_rstrts eng s Map.empty = Inr (s\<lparr>filtered_rstrts :=
     sort_key (\<lambda>e. the (e_dist e)) (map (with_dist (cur_coord s)) (map project (mycol s)))\<rparr>)"
  by (rule update_rstrts_Some) (simp add: build_query_empty mycol_find_def)

text \<open>The distance of a point to itself.\<close>

lemma geodistance_same: "geodistance x y x y = 0"
  by (simp add: geodistance_def radians_def py_round3_def)

lemmas example_defs = example_rstrt_def example_entry_def example_state_def example_grade_def

subsection \<open>Selecting by position\<close>

text \<open>
  C1, counterexample. With one restaurant listed and selected, selecting position 1, which
  is out of bounds, raises \<^verbatim>\<open>IndexError\<close>; \<^verbatim>\<open>cur_rstrt\<close> has been cleared by then
  but \<^verbatim>\<open>cur_index\<close> holds the position. The claim says that the call returns with both
  cleared.
\<close>

theorem update_cur_rstrt_out_of_range_counterexample:
  "update_cur_rstrt
     (example_state [example_entry ''1'' ''Pizza Place'' 0] (Some 0)
        (Some (example_rstrt ''1'' ''Pizza Place'' (Some (Some 1, Some 1))))
        [example_rstrt ''1'' ''Pizza Place'' (Some (Some 1, Some 1))])
     (Some 1)
   = Inl (IndexError,
       example_state [example_entry ''1'' ''Pizza Place'' 0] (Some 1) None
         [example_rstrt ''1'' ''Pizza Place'' (Some (Some 1, Some 1))])"
  by (simp add: update_cur_rstrt_def py_index_def example_defs)

text \<open>
  C1, as amended. For every position that is out of bounds for the current result set
  (below \<open>- length\<close> or at least \<open>length\<close>, as Python indexes a list),
  \<^verbatim>\<open>update_cur_rstrt\<close> raises \<^verbatim>\<open>IndexError\<close>, leaving \<^verbatim>\<open>cur_rstrt\<close> none,
  \<^verbatim>\<open>cur_index\<close> set to the position and everything else as it was.
\<close>

theorem update_cur_rstrt_out_of_range:
  assumes "i < - int (length (filtered_rstrts s)) \<or> int (length (filtered_rstrts s)) \<le> i"
  shows "update_cur_rstrt s (Some i)
         = Inl (IndexError, s\<lparr>cur_index := Some i, cur_rstrt := None\<rparr>)"
  using assms by (auto simp: update_cur_rstrt_def py_index_def Let_def)

theorem update_cur_rstrt_out_of_range_witness:
  "int (length (filtered_rstrts (example_state [] None None []))) \<le> 0
   \<and> update_cur_rstrt (example_state [] None None []) (Some 0)
       = Inl (IndexError, example_state [] (Some 0) None [])"
proof -
  have h: "(0::int) < - int (length (filtered_rstrts (example_state [] None None [])))
           \<or> int (length (filtered_rstrts (example_state [] None None []))) \<le> 0"
    by (simp add: example_defs)
  from update_cur_rstrt_out_of_range [OF h] show ?thesis
    by (simp add: example_defs)
qed

subsection \<open>Creating a restaurant\<close>

text \<open>
  C2, the code at a failing input. The store holds the ids \<^verbatim>\<open>"9"\<close> and \<^verbatim>\<open>"10"\<close>.
  \<^verbatim>\<open>get_max_id\<close> asks the store for the greatest id, which orders the strings byte by
  byte and answers \<^verbatim>\<open>"9"\<close>; \<^verbatim>\<open>new_rstrt\<close> then assigns \<^verbatim>\<open>"10"\<close>, an id that is
  already present and does not exceed it, puts the new element at the head of the list and
  fails with the store's duplicate-key error.
\<close>

theorem new_rstrt_id_not_greater:
  "get_max_id (example_state [] None None
       [example_rstrt ''9'' ''Pizza Place'' None, example_rstrt ''10'' ''Sushi Bar'' None])
     = ''9''
   \<and> new_rstrt (example_state [] None None
       [example_rstrt ''9'' ''Pizza Place'' None, example_rstrt ''10'' ''Sushi Bar'' None])
     = Inl (DuplicateKeyError,
         example_state [entry_of (EMPTY_RSTRT\<lparr>name := ''untitled'', restaurant_id := ''10''\<rparr>)]
           None None
           [example_rstrt ''9'' ''Pizza Place'' None, example_rstrt ''10'' ''Sushi Bar'' None])"
  by (simp add: new_rstrt_def get_max_id_def example_defs EMPTY_RSTRT_def py_int_def strip_def
      is_space_def digit_val_def py_str_def str_nat.simps digit_char_def mycol_insert_def Let_def)

text \<open>
  C10, counterexample. On an empty store and an empty list, \<^verbatim>\<open>new_rstrt\<close> creates the
  restaurant 100000001 and puts its element, which has no \<^verbatim>\<open>dist\<close>, into the list.
  Selecting position 0 and then setting the coordinate of the selected restaurant to the
  reference coordinate makes the loop of \<^verbatim>\<open>edit_coord\<close> find that element and give it
  the distance 0: every element of the list carries a distance again, and no search has
  been made. The claim says that the element stays without one until the next search.
\<close>

theorem new_rstrt_edit_coord_counterexample:
  "new_rstrt (example_state [] None None [])
     = Inr (example_state
          [entry_of (EMPTY_RSTRT\<lparr>name := ''untitled'', restaurant_id := ''100000001''\<rparr>)]
          None None [EMPTY_RSTRT\<lparr>name := ''untitled'', restaurant_id := ''100000001''\<rparr>])
   \<and> update_cur_rstrt
       (example_state
          [entry_of (EMPTY_RSTRT\<lparr>name := ''untitled'', restaurant_id := ''100000001''\<rparr>)]
          None None [EMPTY_RSTRT\<lparr>name := ''untitled'', restaurant_id := ''100000001''\<rparr>])
       (Some 0)
     = Inr (example_state
          [entry_of (EMPTY_RSTRT\<lparr>name := ''untitled'', restaurant_id := ''100000001''\<rparr>)]
          (Some 0)
          (Some (EMPTY_RSTRT\<lparr>name := ''untitled'', restaurant_id := ''100000001''\<rparr>))
          [EMPTY_RSTRT\<lparr>name := ''untitled'', restaurant_id := ''100000001''\<rparr>])
   \<and> edit_coord
       (example_state
          [entry_of (EMPTY_RSTRT\<lparr>name := ''untitled'', restaurant_id := ''100000001''\<rparr>)]
          (Some 0)
          (Some (EMPTY_RSTRT\<lparr>name := ''untitled'', restaurant_id := ''100000001''\<rparr>))
          [EMPTY_RSTRT\<lparr>name := ''untitled'', restaurant_id := ''100000001''\<rparr>])
       (Some 1) (Some 1)
     = Inr (example_state
          [(entry_of (EMPTY_RSTRT\<lparr>name := ''untitled'', restaurant_id := ''100000001''\<rparr>))
             \<lparr>e_dist := Some 0\<rparr>]
          (Some 0)
          (Some (set_coord (Some 1) (Some 1)
             (EMPTY_RSTRT\<lparr>name := ''untitled'', restaurant_id := ''100000001''\<rparr>)))
          [set_coord (Some 1) (Some 1)
             (EMPTY_RSTRT\<lparr>name := ''untitled'', restaurant_id := ''100000001''\<rparr>)])
   \<and> map e_dist
       [(entry_of (EMPTY_RSTRT\<lparr>name := ''untitled'', restaurant_id := ''100000001''\<rparr>))
          \<lparr>e_dist := Some 0\<rparr>]
     = [Some 0]"
proof -
  have 1: "new_rstrt (example_state [] None None [])
     = Inr (example_state
          [entry_of (EMPTY_RSTRT\<lparr>name := ''untitled'', restaurant_id := ''100000001''\<rparr>)]
          None None [EMPTY_RSTRT\<lparr>name := ''untitled'', restaurant_id := ''100000001''\<rparr>])"
    by (simp add: new_rstrt_def get_max_id_def example_defs EMPTY_RSTRT_def py_int_def strip_def
        is_space_def digit_val_def py_str_def str_nat.simps digit_char_def mycol_insert_def Let_def)
  have 2: "update_cur_rstrt
       (example_state
          [entry_of (EMPTY_RSTRT\<lparr>name := ''untitled'', restaurant_id := ''100000001''\<rparr>)]
          None None [EMPTY_RSTRT\<lparr>name := ''untitled'', restaurant_id := ''100000001''\<rparr>])
       (Some 0)
     = Inr (example_state
          [entry_of (EMPTY_RSTRT\<lparr>name := ''untitled'', restaurant_id := ''100000001''\<rparr>)]
          (Some 0)
          (Some (EMPTY_RSTRT\<lparr>name := ''untitled'', restaurant_id := ''100000001''\<rparr>))
          [EMPTY_RSTRT\<lparr>name := ''untitled'', restaurant_id := ''100000001''\<rparr>])"
    by (simp add: update_cur_rstrt_def py_index_def example_defs entry_of_def has_id_def Let_def)
  have 3: "edit_coord
       (example_state
          [entry_of (EMPTY_RSTRT\<lparr>name := ''untitled'', restaurant_id := ''100000001''\<rparr>)]
          (Some 0)
          (Some (EMPTY_RSTRT\<lparr>name := ''untitled'', restaurant_id := ''100000001''\<rparr>))
          [EMPTY_RSTRT\<lparr>name := ''untitled'', restaurant_id := ''100000001''\<rparr>])
       (Some 1) (Some 1)
     = Inr (example_state
          [(entry_of (EMPTY_RSTRT\<lparr>name := ''untitled'', restaurant_id := ''100000001''\<rparr>))
             \<lparr>e_dist := Some 0\<rparr>]
          (Some 0)
          (Some (set_coord (Some 1) (Some 1)
             (EMPTY_RSTRT\<lparr>name := ''untitled'', restaurant_id := ''100000001''\<rparr>)))
          [set_coord (Some 1) (Some 1)
             (EMPTY_RSTRT\<lparr>name := ''untitled'', restaurant_id := ''100000001''\<rparr>)])"
    by (simp add: edit_coord_def example_defs entry_of_def has_id_def truthy_def
        geodistance_same Let_def)
  from 1 2 3 show ?thesis by simp
qed

text \<open>
  C10, as amended. When \<^verbatim>\<open>new_rstrt\<close> has put its element into the list (it returned,
  or the store refused the insertion afterwards), the list is the old one with a new first
  element that has no \<^verbatim>\<open>dist\<close>, so not every element of the list carries a distance
  any more; whereas after any search that returns, every element carries one. A search is
  not the only way for the new element to get a distance: while the list is still as
  \<^verbatim>\<open>new_rstrt\<close> left it and the new restaurant is the selected one, \<^verbatim>\<open>edit_coord\<close>
  returns and gives the new element a distance, leaving the rest of the list as it was.
\<close>

theorem new_rstrt_entry_dist_absent:
  assumes "new_rstrt s = Inr s' \<or> new_rstrt s = Inl (DuplicateKeyError, s')"
  shows "(\<exists>e. filtered_rstrts s' = e # filtered_rstrts s \<and> e_dist e = None)
     \<and> \<not> list_all (\<lambda>e. e_dist e \<noteq> None) (filtered_rstrts s')
     \<and> (\<forall>eng t c t'. update_rstrts eng t c = Inr t' \<longrightarrow>
           list_all (\<lambda>e. e_dist e \<noteq> None) (filtered_rstrts t'))
     \<and> (\<forall>t r lng lat.
           filtered_rstrts t = filtered_rstrts s' \<and> cur_rstrt t = Some r
           \<and> restaurant_id r = e_restaurant_id (hd (filtered_rstrts s')) \<longrightarrow>
           (\<exists>t' x. edit_coord t lng lat = Inr t'
              \<and> filtered_rstrts t'
                  = (hd (filtered_rstrts s'))\<lparr>e_dist := Some x\<rparr> # filtered_rstrts s))"
proof -
  from assms obtain e where e: "filtered_rstrts s' = e # filtered_rstrts s" "e_dist e = None"
    by (auto simp: new_rstrt_def Let_def entry_of_def split: option.splits)
  have search: "list_all (\<lambda>e. e_dist e \<noteq> None) (filtered_rstrts t')"
    if "update_rstrts eng t c = Inr t'" for eng t c t'
    using that unfolding update_rstrts_Inr_iff
    by (auto simp: list_all_iff with_dist_def)
  have edit: "\<exists>t' x. edit_coord t lng lat = Inr t'
      \<and> filtered_rstrts t' = (hd (filtered_rstrts s'))\<lparr>e_dist := Some x\<rparr> # filtered_rstrts s"
    if "filtered_rstrts t = filtered_rstrts s' \<and> cur_rstrt t = Some r
        \<and> restaurant_id r = e_restaurant_id (hd (filtered_rstrts s'))"
    for t r lng lat
    using that e by (auto simp: edit_coord_def Let_def)
  from e search edit show ?thesis
    by (intro conjI allI impI) simp_all
qed

theorem new_rstrt_entry_dist_absent_witness:
  "new_rstrt (example_state [example_entry ''1'' ''Pizza Place'' 0] None None [])
     = Inr (example_state
              [entry_of (EMPTY_RSTRT\<lparr>name := ''untitled'', restaurant_id := ''100000001''\<rparr>),
               example_entry ''1'' ''Pizza Place'' 0]
              None None [EMPTY_RSTRT\<lparr>name := ''untitled'', restaurant_id := ''100000001''\<rparr>])
   \<and> \<not> list_all (\<lambda>e. e_dist e \<noteq> None)
         [entry_of (EMPTY_RSTRT\<lparr>name := ''untitled'', restaurant_id := ''100000001''\<rparr>),
          example_entry ''1'' ''Pizza Place'' 0]
   \<and> (\<exists>t' x. edit_coord
         (example_state
            [entry_of (EMPTY_RSTRT\<lparr>name := ''untitled'', restaurant_id := ''100000001''\<rparr>),
             example_entry ''1'' ''Pizza Place'' 0]
            (Some 0)
            (Some (EMPTY_RSTRT\<lparr>name := ''untitled'', restaurant_id := ''100000001''\<rparr>))
            [EMPTY_RSTRT\<lparr>name := ''untitled'', restaurant_id := ''100000001''\<rparr>])
         (Some 1) (Some 1) = Inr t'
       \<and> filtered_rstrts t'
           = [(entry_of (EMPTY_RSTRT\<lparr>name := ''untitled'', restaurant_id := ''100000001''\<rparr>))
                \<lparr>e_dist := Some x\<rparr>,
              example_entry ''1'' ''Pizza Place'' 0])"
proof -
  let ?n = "EMPTY_RSTRT\<lparr>name := ''untitled'', restaurant_id := ''100000001''\<rparr>"
  let ?s' = "example_state [entry_of ?n, example_entry ''1'' ''Pizza Place'' 0] None None [?n]"
  let ?t = "example_state [entry_of ?n, example_entry ''1'' ''Pizza Place'' 0] (Some 0)
      (Some ?n) [?n]"
  have h: "new_rstrt (example_state [example_entry ''1'' ''Pizza Place'' 0] None None [])
     = Inr ?s'"
    by (simp add: new_rstrt_def get_max_id_def example_defs EMPTY_RSTRT_def py_int_def strip_def
        is_space_def digit_val_def py_str_def str_nat.simps digit_char_def mycol_insert_def Let_def)
  note f = new_rstrt_entry_dist_absent [OF disjI1, OF h]
  note edit = f [THEN conjunct2, THEN conjunct2, THEN conjunct2, rule_format]
  have 1: "\<not> list_all (\<lambda>e. e_dist e \<noteq> None) (filtered_rstrts ?s')"
    by (rule f [THEN conjunct2, THEN conjunct1])
  have "filtered_rstrts ?t = filtered_rstrts ?s' \<and> cur_rstrt ?t = Some ?n
      \<and> restaurant_id ?n = e_restaurant_id (hd (filtered_rstrts ?s'))"
    by (simp add: example_state_def entry_of_def)
  from edit [OF this, of "Some 1" "Some 1"]
  have 2: "\<exists>t' x. edit_coord ?t (Some 1) (Some 1) = Inr t'
      \<and> filtered_rstrts t' = [(entry_of ?n)\<lparr>e_dist := Some x\<rparr>, example_entry ''1'' ''Pizza Place'' 0]"
    by (simp add: example_state_def)
  from h 1 2 show ?thesis
    by (simp add: example_state_def)
qed

subsection \<open>Searching: order\<close>

text \<open>
  C5. After a search that returns, the list is in non-decreasing order of \<^verbatim>\<open>dist\<close>, and
  the elements of any one distance stand in the order in which the store returned their
  documents, that is, the order they had before the sort.
\<close>

theorem update_rstrts_sorted_stable:
  assumes "update_rstrts eng s condition = Inr s'"
  shows "sorted (map (\<lambda>e. the (e_dist e)) (filtered_rstrts s')) \<and>
     (\<exists>ds. mycol_find eng (build_query condition) (mycol s) = Some ds \<and>
        (\<forall>x. filter (\<lambda>e. the (e_dist e) = x) (filtered_rstrts s')
           = filter (\<lambda>e. the (e_dist e) = x)
               (map (with_dist (cur_coord s)) (map project ds))))"
  using assms unfolding update_rstrts_Inr_iff
  by (auto simp: sort_key_stable sorted_sort_key simp del: map_map)

theorem update_rstrts_sorted_stable_witness:
  "update_rstrts fragment_matcher
     (example_state [] None None
        [example_rstrt ''2'' ''Sushi Bar'' None,
         example_rstrt ''1'' ''Pizza Place'' (Some (Some 1, Some 1))])
     Map.empty
   = Inr (example_state
        [example_entry ''1'' ''Pizza Place'' 0, example_entry ''2'' ''Sushi Bar'' sentinel]
        None None
        [example_rstrt ''2'' ''Sushi Bar'' None,
         example_rstrt ''1'' ''Pizza Place'' (Some (Some 1, Some 1))])
   \<and> sorted (map (\<lambda>e. the (e_dist e))
        [example_entry ''1'' ''Pizza Place'' 0, example_entry ''2'' ''Sushi Bar'' sentinel])"
proof -
  have h: "update_rstrts fragment_matcher
     (example_state [] None None
        [example_rstrt ''2'' ''Sushi Bar'' None,
         example_rstrt ''1'' ''Pizza Place'' (Some (Some 1, Some 1))])
     Map.empty
   = Inr (example_state
        [example_entry ''1'' ''Pizza Place'' 0, example_entry ''2'' ''Sushi Bar'' sentinel]
        None None
        [example_rstrt ''2'' ''Sushi Bar'' None,
         example_rstrt ''1'' ''Pizza Place'' (Some (Some 1, Some 1))])"
    by (simp add: update_rstrts_empty example_defs with_dist_def project_def truthy_def
        geodistance_same sentinel_def)
  from update_rstrts_sorted_stable [OF h] h show ?thesis
    by (simp add: example_state_def)
qed

subsection \<open>Searching: the distance of a coordinate with a zero component\<close>

text \<open>
  C4, the code at a failing input. The stored restaurant has both components of its
  coordinate, longitude 0 and latitude 51. The test \<^verbatim>\<open>coord and coord[0] and coord[1]\<close>
  takes the number 0 for false, so the element gets the sentinel 99999.99 and not the
  distance to the reference coordinate.
\<close>

theorem update_rstrts_zero_coord_sentinel:
  "update_rstrts fragment_matcher
     (example_state [] None None [example_rstrt ''3'' ''Meridian Cafe'' (Some (Some 0, Some 51))])
     Map.empty
   = Inr (example_state [example_entry ''3'' ''Meridian Cafe'' 99999.99] None None
        [example_rstrt ''3'' ''Meridian Cafe'' (Some (Some 0, Some 51))])"
  by (simp add: update_rstrts_empty example_defs with_dist_def project_def truthy_def
      sentinel_def)

subsection \<open>Editing the address\<close>

lemma length_update_one: "length (update_one p f ds) = length ds"
  by (induction ds) auto

text \<open>Only the first document that matches is changed, and it stays in its place.\<close>

lemma update_one_nth:
  "k < length ds \<Longrightarrow>
   update_one p f ds ! k = (if p (ds ! k) \<and> (\<forall>j<k. \<not> p (ds ! j)) then f (ds ! k) else ds ! k)"
proof (induction ds arbitrary: k)
  case Nil
  then show ?case by simp
next
  case (Cons d ds)
  show ?case
  proof (cases k)
    case 0
    then show ?thesis by simp
  next
    case (Suc m)
    with Cons.prems have m: "m < length ds" by simp
    show ?thesis
    proof (cases "p d")
      case True
      then show ?thesis using Suc by auto
    next
      case False
      have "(\<forall>j<Suc m. \<not> p ((d # ds) ! j)) \<longleftrightarrow> (\<forall>j<m. \<not> p (ds ! j))"
        using False by (auto simp: less_Suc_eq_0_disj)
      then show ?thesis using False Suc Cons.IH [OF m] by auto
    qed
  qed
qed

text \<open>
  C7. With a restaurant selected, \<^verbatim>\<open>edit_address\<close> returns; the address of
  \<^verbatim>\<open>cur_rstrt\<close> and of the first stored document with its id becomes the given
  building, street and zipcode together with the coordinate \<^verbatim>\<open>cur_rstrt\<close> had, and
  nothing else changes. The coordinate of \<^verbatim>\<open>cur_rstrt\<close> is the same before and after,
  and so is that of a stored document that agreed with \<^verbatim>\<open>cur_rstrt\<close> on it.
\<close>

theorem edit_address_keeps_coord:
  assumes "cur_rstrt s = Some r"
  shows "edit_address s docs
       = Inr (s\<lparr>mycol := update_one (has_id (restaurant_id r))
                   (\<lambda>d. d\<lparr>address := \<lparr>building = f_building docs, coord = coord (address r),
                                        street = f_street docs, zipcode = f_zipcode docs\<rparr>\<rparr>)
                   (mycol s),
                cur_rstrt := Some (r\<lparr>address := \<lparr>building = f_building docs,
                   coord = coord (address r), street = f_street docs,
                   zipcode = f_zipcode docs\<rparr>\<rparr>)\<rparr>)
     \<and> (\<forall>s'. edit_address s docs = Inr s' \<longrightarrow>
          map_option (\<lambda>d. coord (address d)) (cur_rstrt s') = Some (coord (address r))
          \<and> length (mycol s') = length (mycol s)
          \<and> (\<forall>k<length (mycol s).
                coord (address (mycol s ! k)) = coord (address r) \<longrightarrow>
                coord (address (mycol s' ! k)) = coord (address (mycol s ! k))))"
  using assms
  by (auto simp: edit_address_def Let_def length_update_one update_one_nth)

theorem edit_address_keeps_coord_witness:
  "cur_rstrt (example_state [] (Some 0)
       (Some (example_rstrt ''1'' ''Pizza Place'' (Some (Some 1, Some 1))))
       [example_rstrt ''1'' ''Pizza Place'' (Some (Some 1, Some 1))])
     = Some (example_rstrt ''1'' ''Pizza Place'' (Some (Some 1, Some 1)))
   \<and> edit_address (example_state [] (Some 0)
       (Some (example_rstrt ''1'' ''Pizza Place'' (Some (Some 1, Some 1))))
       [example_rstrt ''1'' ''Pizza Place'' (Some (Some 1, Some 1))])
       \<lparr>f_building = ''12'', f_street = ''Main St'', f_zipcode = ''10001''\<rparr>
     = Inr (example_state [] (Some 0)
         (Some \<lparr>address = \<lparr>building = ''12'', coord = Some (Some 1, Some 1),
                    street = ''Main St'', zipcode = ''10001''\<rparr>,
                 borough = '''', cuisine = '''', grades = [], name = ''Pizza Place'',
                 restaurant_id = ''1''\<rparr>)
         [\<lparr>address = \<lparr>building = ''12'', coord = Some (Some 1, Some 1),
                    street = ''Main St'', zipcode = ''10001''\<rparr>,
           borough = '''', cuisine = '''', grades = [], name = ''Pizza Place'',
           restaurant_id = ''1''\<rparr>])"
proof -
  have h: "cur_rstrt (example_state [] (Some 0)
       (Some (example_rstrt ''1'' ''Pizza Place'' (Some (Some 1, Some 1))))
       [example_rstrt ''1'' ''Pizza Place'' (Some (Some 1, Some 1))])
     = Some (example_rstrt ''1'' ''Pizza Place'' (Some (Some 1, Some 1)))"
    by (simp add: example_state_def)
  from edit_address_keeps_coord [OF h] h show ?thesis
    by (simp add: example_defs has_id_def)
qed

subsection \<open>Removing a grade\<close>

lemma length_del_at: "k < length xs \<Longrightarrow> length (del_at k xs) = length xs - 1"
  by (simp add: del_at_def)

lemma del_at_nth_before: "j < k \<Longrightarrow> k < length xs \<Longrightarrow> del_at k xs ! j = xs ! j"
  by (simp add: del_at_def nth_append)

lemma del_at_nth_after:
  "k \<le> j \<Longrightarrow> j < length xs - 1 \<Longrightarrow> k < length xs \<Longrightarrow> del_at k xs ! j = xs ! Suc j"
  by (simp add: del_at_def nth_append min_def)

text \<open>
  C8. With a restaurant selected whose grades are \<open>g\<close>, and an index \<open>i\<close> that is valid
  for \<open>g\<close> (from the front, or negative from the end as Python counts), \<^verbatim>\<open>del_grade\<close>
  returns and leaves \<^verbatim>\<open>cur_rstrt\<close> with the grades \<open>g\<close> without the element at that
  position \<open>k\<close>: one element fewer, those before \<open>k\<close> where they were, those after it
  moved down by one.
\<close>

theorem del_grade_removes_index:
  assumes "cur_rstrt s = Some r"
    and "- int (length (grades r)) \<le> i" and "i < int (length (grades r))"
  shows "\<exists>s' g' k. del_grade s i = Inr s' \<and> cur_rstrt s' = Some (r\<lparr>grades := g'\<rparr>)
     \<and> k = nat (if i < 0 then int (length (grades r)) + i else i)
     \<and> k < length (grades r)
     \<and> g' = take k (grades r) @ drop (Suc k) (grades r)
     \<and> length g' = length (grades r) - 1
     \<and> (\<forall>j<k. g' ! j = grades r ! j)
     \<and> (\<forall>j. k \<le> j \<and> j < length g' \<longrightarrow> g' ! j = grades r ! Suc j)"
proof -
  define k where "k = nat (if i < 0 then int (length (grades r)) + i else i)"
  have k: "k < length (grades r)" using assms(2,3) unfolding k_def by auto
  have d: "py_del (grades r) i = Some (del_at k (grades r))"
    using assms(2,3) unfolding k_def py_del_def by auto
  have "\<exists>s'. del_grade s i = Inr s' \<and> cur_rstrt s' = Some (r\<lparr>grades := del_at k (grades r)\<rparr>)"
    using assms(1) d by (simp add: del_grade_def Let_def)
  moreover have "del_at k (grades r) = take k (grades r) @ drop (Suc k) (grades r)"
    by (simp add: del_at_def)
  moreover have "length (del_at k (grades r)) = length (grades r) - 1"
    using k by (rule length_del_at)
  moreover have "\<forall>j<k. del_at k (grades r) ! j = grades r ! j"
    using k by (simp add: del_at_nth_before)
  moreover have "\<forall>j. k \<le> j \<and> j < length (del_at k (grades r))
      \<longrightarrow> del_at k (grades r) ! j = grades r ! Suc j"
    using k by (simp add: del_at_nth_after length_del_at)
  ultimately show ?thesis using k k_def by blast
qed

theorem del_grade_removes_index_witness:
  "\<exists>s'. del_grade
       (example_state [] (Some 0)
          (Some ((example_rstrt ''1'' ''Pizza Place'' None)
             \<lparr>grades := [example_grade ''A'', example_grade ''B'', example_grade ''C'']\<rparr>))
          [])
       1 = Inr s'
     \<and> cur_rstrt s' = Some ((example_rstrt ''1'' ''Pizza Place'' None)
             \<lparr>grades := [example_grade ''A'', example_grade ''C'']\<rparr>)"
proof -
  have h: "cur_rstrt (example_state [] (Some 0)
          (Some ((example_rstrt ''1'' ''Pizza Place'' None)
             \<lparr>grades := [example_grade ''A'', example_grade ''B'', example_grade ''C'']\<rparr>))
          [])
      = Some ((example_rstrt ''1'' ''Pizza Place'' None)
             \<lparr>grades := [example_grade ''A'', example_grade ''B'', example_grade ''C'']\<rparr>)"
    by (simp add: example_state_def)
  have b: "- int (length (grades ((example_rstrt ''1'' ''Pizza Place'' None)
             \<lparr>grades := [example_grade ''A'', example_grade ''B'', example_grade ''C'']\<rparr>))) \<le> 1"
    "1 < int (length (grades ((example_rstrt ''1'' ''Pizza Place'' None)
             \<lparr>grades := [example_grade ''A'', example_grade ''B'', example_grade ''C'']\<rparr>)))"
    by simp_all
  from del_grade_removes_index [OF h b] show ?thesis
    by auto
qed

subsection \<open>Deleting the listed restaurants\<close>

text \<open>
  C9, counterexample. One restaurant is listed and selected at position 0. After
  \<^verbatim>\<open>del_all\<close> the list is empty and \<^verbatim>\<open>cur_rstrt\<close> is none, but \<^verbatim>\<open>cur_index\<close> is
  still 0: of the two parts of the selection only one has been cleared.
\<close>

theorem del_all_keeps_cur_index_counterexample:
  "del_all (example_state [example_entry ''1'' ''Pizza Place'' 0] (Some 0)
       (Some (example_rstrt ''1'' ''Pizza Place'' (Some (Some 1, Some 1))))
       [example_rstrt ''1'' ''Pizza Place'' (Some (Some 1, Some 1)),
        example_rstrt ''2'' ''Sushi Bar'' None])
   = Inr (example_state [] (Some 0) None [example_rstrt ''2'' ''Sushi Bar'' None])"
  by (simp add: del_all_def delete_many_def example_defs)

text \<open>
  C9, as amended. \<^verbatim>\<open>del_all\<close> returns; it deletes from the store exactly the documents
  whose id is the id of an element of the list, empties the list and sets
  \<^verbatim>\<open>cur_rstrt\<close> to none, leaving \<^verbatim>\<open>cur_index\<close> (and the reference coordinate) as it
  was. Every document whose id is not in the list is still returned, with its id and name,
  by an unfiltered search made next.
\<close>

theorem del_all_effect:
  "\<exists>s'. del_all s = Inr s'
     \<and> mycol s' = filter (\<lambda>d. restaurant_id d \<notin> set (map e_restaurant_id (filtered_rstrts s)))
                     (mycol s)
     \<and> filtered_rstrts s' = [] \<and> cur_rstrt s' = None
     \<and> cur_index s' = cur_index s \<and> cur_coord s' = cur_coord s
     \<and> (\<forall>d \<in> set (mycol s).
          restaurant_id d \<notin> set (map e_restaurant_id (filtered_rstrts s)) \<longrightarrow>
          (\<exists>s''. update_rstrts eng s' Map.empty = Inr s'' \<and>
             (\<exists>e \<in> set (filtered_rstrts s'').
                e_restaurant_id e = restaurant_id d \<and> e_name e = name d)))"
  by (auto simp: del_all_def delete_many_def update_rstrts_empty with_dist_def project_def
      image_iff intro!: bexI)

theorem del_all_effect_witness:
  "\<exists>s' s''. del_all (example_state [example_entry ''1'' ''Pizza Place'' 0] (Some 0)
       (Some (example_rstrt ''1'' ''Pizza Place'' (Some (Some 1, Some 1))))
       [example_rstrt ''1'' ''Pizza Place'' (Some (Some 1, Some 1)),
        example_rstrt ''2'' ''Sushi Bar'' None]) = Inr s'
     \<and> mycol s' = [example_rstrt ''2'' ''Sushi Bar'' None]
     \<and> cur_index s' = Some 0
     \<and> update_rstrts fragment_matcher s' Map.empty = Inr s''
     \<and> (\<exists>e \<in> set (filtered_rstrts s''). e_restaurant_id e = ''2'' \<and> e_name e = ''Sushi Bar'')"
  using del_all_effect [of "example_state [example_entry ''1'' ''Pizza Place'' 0] (Some 0)
       (Some (example_rstrt ''1'' ''Pizza Place'' (Some (Some 1, Some 1))))
       [example_rstrt ''1'' ''Pizza Place'' (Some (Some 1, Some 1)),
        example_rstrt ''2'' ''Sushi Bar'' None]" fragment_matcher]
  by (auto simp: example_defs)

subsection \<open>The distance function\<close>

lemma py_round3_upper: "py_round3 x \<le> x + 1 / 2000"
proof -
  define y where "y = x * 1000"
  define f where "f = \<lfloor>y\<rfloor>"
  define d where "d = y - of_int f"
  have fy: "of_int f \<le> y" "y < of_int f + 1" unfolding f_def by linarith+
  have "of_int (if d < 1 / 2 then f else if 1 / 2 < d then f + 1
                 else if even f then f else f + 1) \<le> y + 1 / 2"
    using fy unfolding d_def by auto
  then show ?thesis
    unfolding py_round3_def Let_def y_def [symmetric] f_def [symmetric] d_def [symmetric]
    unfolding y_def by (simp add: field_simps)
qed

lemma py_round3_nonneg: "0 \<le> x \<Longrightarrow> 0 \<le> py_round3 x"
proof -
  assume "0 \<le> x"
  then have "0 \<le> \<lfloor>x * 1000\<rfloor>" by simp
  then show ?thesis
    unfolding py_round3_def Let_def by auto
qed

lemma sin_half_squared: "(sin (t / 2))\<^sup>2 = (1 - cos t) / 2" for t :: real
proof -
  have "cos t = cos (2 * (t / 2))" by simp
  also have "\<dots> = 1 - 2 * (sin (t / 2))\<^sup>2" by (rule cos_double_sin)
  finally show ?thesis by simp
qed

text \<open>
  The number under the square root lies between 0 and 1 for all arguments, so neither
  \<^verbatim>\<open>math.sqrt\<close> nor \<^verbatim>\<open>math.asin\<close> is applied outside its domain.
\<close>

lemma hav_arg_range:
  fixes p q l :: real
  defines "a \<equiv> (sin ((q - p) / 2))\<^sup>2 + cos p * cos q * (sin (l / 2))\<^sup>2"
  shows "0 \<le> a \<and> a \<le> 1"
proof -
  define s2 where "s2 = (sin (l / 2))\<^sup>2"
  define c where "c = cos (q - p)"
  define d where "d = cos (p + q)"
  have s2: "0 \<le> s2" "s2 \<le> 1" unfolding s2_def by (simp_all add: abs_square_le_1)
  have c: "- 1 \<le> c" "c \<le> 1" unfolding c_def by simp_all
  have d: "- 1 \<le> d" "d \<le> 1" unfolding d_def by simp_all
  have e1: "cos p * cos q = (c + d) / 2"
    unfolding c_def d_def by (simp add: cos_add cos_diff)
  have e2: "(sin ((q - p) / 2))\<^sup>2 = (1 - c) / 2"
    unfolding c_def by (rule sin_half_squared)
  have "a = (1 - c) / 2 + (c + d) / 2 * s2"
    unfolding a_def s2_def e1 e2 by (rule refl)
  then have a: "2 * a = 1 - c * (1 - s2) + s2 * d"
    by (simp add: field_simps)
  have 1: "c * (1 - s2) \<le> 1 - s2"
    using mult_right_mono [of c 1 "1 - s2"] c s2 by simp
  have 2: "- (1 - s2) \<le> c * (1 - s2)"
    using mult_right_mono [of "- 1" c "1 - s2"] c s2 by simp
  have 3: "s2 * d \<le> s2"
    using mult_left_mono [of d 1 s2] d s2 by simp
  have 4: "- s2 \<le> s2 * d"
    using mult_left_mono [of "- 1" d s2] d s2 by simp
  from a 1 2 3 4 show ?thesis by linarith
qed

text \<open>The code computes the Haversine distance of the spec, rounded.\<close>

lemma geodistance_haversine:
  "geodistance lng1 lat1 lng2 lat2 = py_round3 (haversine_km lng1 lat1 lng2 lat2)"
  by (simp add: geodistance_def haversine_km_def hav_def Let_def sin_half_squared)

lemma haversine_km_bounds:
  "0 \<le> haversine_km lng1 lat1 lng2 lat2 \<and> haversine_km lng1 lat1 lng2 lat2 < 25484"
proof -
  define a where "a = (sin ((radians lat2 - radians lat1) / 2))\<^sup>2
     + cos (radians lat1) * cos (radians lat2) * (sin ((radians lng2 - radians lng1) / 2))\<^sup>2"
  have a: "0 \<le> a \<and> a \<le> 1" unfolding a_def by (rule hav_arg_range)
  have h: "haversine_km lng1 lat1 lng2 lat2 = 2 * 6371 * arcsin (sqrt a)"
    by (simp add: haversine_km_def hav_def a_def sin_half_squared)
  have s: "0 \<le> sqrt a" "sqrt a \<le> 1" using a by simp_all
  have "0 \<le> arcsin (sqrt a)" using s by (simp add: arcsin_nonneg)
  moreover have "arcsin (sqrt a) \<le> pi / 2" using arcsin_bounded [of "sqrt a"] s by simp
  moreover have "pi / 2 < 2" by (rule pi_half_less_two)
  ultimately show ?thesis unfolding h by simp
qed

lemma geodistance_bounds:
  "0 \<le> geodistance lng1 lat1 lng2 lat2 \<and> geodistance lng1 lat1 lng2 lat2 < sentinel"
proof -
  note b = haversine_km_bounds [of lng1 lat1 lng2 lat2]
  have "geodistance lng1 lat1 lng2 lat2 \<le> haversine_km lng1 lat1 lng2 lat2 + 1 / 2000"
    unfolding geodistance_haversine by (rule py_round3_upper)
  moreover have "0 \<le> geodistance lng1 lat1 lng2 lat2"
    unfolding geodistance_haversine using b by (simp add: py_round3_nonneg)
  ultimately show ?thesis using b by (simp add: sentinel_def)
qed

lemma sin_squared_swap: "(sin ((x - y) / 2))\<^sup>2 = (sin ((y - x) / 2))\<^sup>2" for x y :: real
proof -
  have "(x - y) / 2 = - ((y - x) / 2)" by (simp add: field_simps)
  then have "sin ((x - y) / 2) = - sin ((y - x) / 2)" by (simp only: sin_minus)
  then show ?thesis by simp
qed

text \<open>
  \<^verbatim>\<open>geodistance\<close> does not change when the two points are exchanged, is 0 for a
  point and itself, and lies between 0 and the sentinel (it is the rounded Haversine
  distance, which is below 25484 km).
\<close>

theorem geodistance_symmetric_zero_bounded:
  "geodistance lng1 lat1 lng2 lat2 = geodistance lng2 lat2 lng1 lat1
   \<and> geodistance lng1 lat1 lng1 lat1 = 0
   \<and> geodistance lng1 lat1 lng2 lat2 = py_round3 (haversine_km lng1 lat1 lng2 lat2)
   \<and> 0 \<le> geodistance lng1 lat1 lng2 lat2
   \<and> geodistance lng1 lat1 lng2 lat2 < sentinel"
proof -
  have "geodistance lng1 lat1 lng2 lat2 = geodistance lng2 lat2 lng1 lat1"
    unfolding geodistance_def Let_def
    by (simp add: sin_squared_swap [of "radians lat2" "radians lat1"]
        sin_squared_swap [of "radians lng2" "radians lng1"] mult.commute)
  then show ?thesis
    using geodistance_bounds [of lng1 lat1 lng2 lat2]
    by (simp add: geodistance_same geodistance_haversine)
qed

subsection \<open>Editing the coordinate\<close>

lemma patch_dist_None:
  "patch_dist rid x es = None \<longleftrightarrow> rid \<notin> set (map e_restaurant_id es)"
  by (induction es) auto

lemma patch_dist_Some:
  "k < length es \<Longrightarrow> e_restaurant_id (es ! k) = rid \<Longrightarrow>
   \<forall>j<k. e_restaurant_id (es ! j) \<noteq> rid \<Longrightarrow>
   patch_dist rid x es = Some (es[k := (es ! k)\<lparr>e_dist := Some x\<rparr>])"
proof (induction es arbitrary: k)
  case Nil
  then show ?case by simp
next
  case (Cons e es)
  show ?case
  proof (cases k)
    case 0
    with Cons.prems show ?thesis by simp
  next
    case (Suc m)
    from Cons.prems(3) Suc have e: "e_restaurant_id e \<noteq> rid" by auto
    from Cons.prems Suc have "m < length es" "e_restaurant_id (es ! m) = rid"
      "\<forall>j<m. e_restaurant_id (es ! j) \<noteq> rid" by auto
    from Cons.IH [OF this] e Suc show ?thesis by simp
  qed
qed

text \<open>
  What \<^verbatim>\<open>edit_coord\<close> does when its loop finds no element with the id: the sort after
  the loop runs (and raises \<^verbatim>\<open>KeyError\<close> on an element without a distance).
\<close>

lemma edit_coord_no_match:
  assumes "cur_rstrt s = Some r"
    and "restaurant_id r \<notin> set (map e_restaurant_id (filtered_rstrts s))"
  shows "edit_coord s lng lat
     = (if list_all (\<lambda>e. e_dist e \<noteq> None) (filtered_rstrts s)
        then Inr (s\<lparr>mycol := update_one (has_id (restaurant_id r)) (set_coord lng lat) (mycol s),
                   cur_rstrt := Some (set_coord lng lat r),
                   filtered_rstrts := sort_key (\<lambda>e. the (e_dist e)) (filtered_rstrts s)\<rparr>)
        else Inl (KeyError,
                s\<lparr>mycol := update_one (has_id (restaurant_id r)) (set_coord lng lat) (mycol s),
                  cur_rstrt := Some (set_coord lng lat r)\<rparr>))"
proof -
  from assms(2) have "patch_dist (restaurant_id r) x (filtered_rstrts s) = None" for x
    by (simp add: patch_dist_None)
  with assms(1) show ?thesis
    by (simp add: edit_coord_def Let_def sort_by_dist_def)
qed

text \<open>
  What \<^verbatim>\<open>edit_coord\<close> does with a restaurant \<open>r\<close> selected. It sets
  \<^verbatim>\<open>address.coord\<close> of the first stored document with the id of \<open>r\<close> and of
  \<^verbatim>\<open>cur_rstrt\<close>, and
  \<^item> when an element of the list has that id, it returns with the list changed in one
    place only: the first such element, at its position \<open>k\<close>, gets the distance \<open>x\<close>,
    which is the sentinel when a component is none or zero and \<^verbatim>\<open>geodistance\<close> to
    the reference coordinate when both components are numbers other than zero; no element
    moves;
  \<^item> when no element has that id and the list is in non-decreasing order of distance,
    every element carrying one (as a search leaves it), it returns with the list as it
    was.
  Nothing else changes.
\<close>

theorem edit_coord_effect:
  assumes "cur_rstrt s = Some r"
  shows "\<exists>x.
      (lng = None \<or> lat = None \<or> lng = Some 0 \<or> lat = Some 0 \<longrightarrow> x = sentinel)
    \<and> (\<forall>a b. lng = Some a \<and> lat = Some b \<and> a \<noteq> 0 \<and> b \<noteq> 0 \<longrightarrow>
          x = geodistance a b (fst (cur_coord s)) (snd (cur_coord s)))
    \<and> (\<forall>k. k < length (filtered_rstrts s)
            \<and> e_restaurant_id (filtered_rstrts s ! k) = restaurant_id r
            \<and> (\<forall>j<k. e_restaurant_id (filtered_rstrts s ! j) \<noteq> restaurant_id r) \<longrightarrow>
          edit_coord s lng lat
          = Inr (s\<lparr>mycol := update_one (has_id (restaurant_id r)) (set_coord lng lat) (mycol s),
                   cur_rstrt := Some (set_coord lng lat r),
                   filtered_rstrts :=
                     (filtered_rstrts s)[k := (filtered_rstrts s ! k)\<lparr>e_dist := Some x\<rparr>]\<rparr>))
    \<and> (restaurant_id r \<notin> set (map e_restaurant_id (filtered_rstrts s))
         \<and> list_all (\<lambda>e. e_dist e \<noteq> None) (filtered_rstrts s)
         \<and> sorted (map (\<lambda>e. the (e_dist e)) (filtered_rstrts s)) \<longrightarrow>
          edit_coord s lng lat
          = Inr (s\<lparr>mycol := update_one (has_id (restaurant_id r)) (set_coord lng lat) (mycol s),
                   cur_rstrt := Some (set_coord lng lat r)\<rparr>))"
proof -
  define x where "x = (if truthy lng \<and> truthy lat
     then geodistance (the lng) (the lat) (fst (cur_coord s)) (snd (cur_coord s))
     else sentinel)"
  have 1: "lng = None \<or> lat = None \<or> lng = Some 0 \<or> lat = Some 0 \<longrightarrow> x = sentinel"
    by (auto simp: x_def truthy_def)
  have 2: "\<forall>a b. lng = Some a \<and> lat = Some b \<and> a \<noteq> 0 \<and> b \<noteq> 0 \<longrightarrow>
          x = geodistance a b (fst (cur_coord s)) (snd (cur_coord s))"
    by (auto simp: x_def truthy_def)
  have 3: "\<forall>k. k < length (filtered_rstrts s)
            \<and> e_restaurant_id (filtered_rstrts s ! k) = restaurant_id r
            \<and> (\<forall>j<k. e_restaurant_id (filtered_rstrts s ! j) \<noteq> restaurant_id r) \<longrightarrow>
          edit_coord s lng lat
          = Inr (s\<lparr>mycol := update_one (has_id (restaurant_id r)) (set_coord lng lat) (mycol s),
                   cur_rstrt := Some (set_coord lng lat r),
                   filtered_rstrts :=
                     (filtered_rstrts s)[k := (filtered_rstrts s ! k)\<lparr>e_dist := Some x\<rparr>]\<rparr>)"
  proof (intro allI impI, elim conjE)
    fix k
    assume k: "k < length (filtered_rstrts s)"
      "e_restaurant_id (filtered_rstrts s ! k) = restaurant_id r"
      "\<forall>j<k. e_restaurant_id (filtered_rstrts s ! j) \<noteq> restaurant_id r"
    have "patch_dist (restaurant_id r) x (filtered_rstrts s)
        = Some ((filtered_rstrts s)[k := (filtered_rstrts s ! k)\<lparr>e_dist := Some x\<rparr>])"
      using k by (rule patch_dist_Some)
    with assms show "edit_coord s lng lat
          = Inr (s\<lparr>mycol := update_one (has_id (restaurant_id r)) (set_coord lng lat) (mycol s),
                   cur_rstrt := Some (set_coord lng lat r),
                   filtered_rstrts :=
                     (filtered_rstrts s)[k := (filtered_rstrts s ! k)\<lparr>e_dist := Some x\<rparr>]\<rparr>)"
      by (simp add: edit_coord_def Let_def x_def)
  qed
  have 4: "restaurant_id r \<notin> set (map e_restaurant_id (filtered_rstrts s))
         \<and> list_all (\<lambda>e. e_dist e \<noteq> None) (filtered_rstrts s)
         \<and> sorted (map (\<lambda>e. the (e_dist e)) (filtered_rstrts s)) \<longrightarrow>
          edit_coord s lng lat
          = Inr (s\<lparr>mycol := update_one (has_id (restaurant_id r)) (set_coord lng lat) (mycol s),
                   cur_rstrt := Some (set_coord lng lat r)\<rparr>)"
  proof (intro impI, elim conjE)
    assume n: "restaurant_id r \<notin> set (map e_restaurant_id (filtered_rstrts s))"
      and d: "list_all (\<lambda>e. e_dist e \<noteq> None) (filtered_rstrts s)"
      and o: "sorted (map (\<lambda>e. the (e_dist e)) (filtered_rstrts s))"
    from o have "sort_key (\<lambda>e. the (e_dist e)) (filtered_rstrts s) = filtered_rstrts s"
      by (rule sort_key_id_if_sorted)
    with d show "edit_coord s lng lat
          = Inr (s\<lparr>mycol := update_one (has_id (restaurant_id r)) (set_coord lng lat) (mycol s),
                   cur_rstrt := Some (set_coord lng lat r)\<rparr>)"
      unfolding edit_coord_no_match [OF assms n] by simp
  qed
  show ?thesis
    by (rule exI [of _ x]) (intro conjI 1 2 3 4)
qed

theorem edit_coord_effect_witness:
  "cur_rstrt (example_state
       [example_entry ''2'' ''Sushi Bar'' 5, example_entry ''1'' ''Pizza Place'' 7]
       (Some 1) (Some (example_rstrt ''1'' ''Pizza Place'' None))
       [example_rstrt ''1'' ''Pizza Place'' None])
     = Some (example_rstrt ''1'' ''Pizza Place'' None)
   \<and> edit_coord (example_state
       [example_entry ''2'' ''Sushi Bar'' 5, example_entry ''1'' ''Pizza Place'' 7]
       (Some 1) (Some (example_rstrt ''1'' ''Pizza Place'' None))
       [example_rstrt ''1'' ''Pizza Place'' None])
       (Some 1) (Some 1)
     = Inr (example_state
         [example_entry ''2'' ''Sushi Bar'' 5, example_entry ''1'' ''Pizza Place'' 0]
         (Some 1) (Some (example_rstrt ''1'' ''Pizza Place'' (Some (Some 1, Some 1))))
         [example_rstrt ''1'' ''Pizza Place'' (Some (Some 1, Some 1))])"
proof -
  let ?s = "example_state
       [example_entry ''2'' ''Sushi Bar'' 5, example_entry ''1'' ''Pizza Place'' 7]
       (Some 1) (Some (example_rstrt ''1'' ''Pizza Place'' None))
       [example_rstrt ''1'' ''Pizza Place'' None]"
  have h: "cur_rstrt ?s = Some (example_rstrt ''1'' ''Pizza Place'' None)"
    by (simp add: example_state_def)
  from edit_coord_effect [OF h, of "Some 1" "Some 1"]
  obtain x where
    a: "\<forall>a b. Some 1 = Some a \<and> Some 1 = Some b \<and> a \<noteq> 0 \<and> b \<noteq> 0 \<longrightarrow>
          x = geodistance a b (fst (cur_coord ?s)) (snd (cur_coord ?s))"
    and e: "\<forall>k. k < length (filtered_rstrts ?s)
            \<and> e_restaurant_id (filtered_rstrts ?s ! k)
                = restaurant_id (example_rstrt ''1'' ''Pizza Place'' None)
            \<and> (\<forall>j<k. e_restaurant_id (filtered_rstrts ?s ! j)
                \<noteq> restaurant_id (example_rstrt ''1'' ''Pizza Place'' None)) \<longrightarrow>
          edit_coord ?s (Some 1) (Some 1)
          = Inr (?s\<lparr>mycol := update_one
                      (has_id (restaurant_id (example_rstrt ''1'' ''Pizza Place'' None)))
                      (set_coord (Some 1) (Some 1)) (mycol ?s),
                   cur_rstrt := Some (set_coord (Some 1) (Some 1)
                      (example_rstrt ''1'' ''Pizza Place'' None)),
                   filtered_rstrts :=
                     (filtered_rstrts ?s)[k := (filtered_rstrts ?s ! k)\<lparr>e_dist := Some x\<rparr>]\<rparr>)"
    by (elim exE conjE) (rule that; assumption)
  have x: "x = geodistance 1 1 (fst (cur_coord ?s)) (snd (cur_coord ?s))"
    using a by simp
  have x0: "x = 0" unfolding x by (simp add: example_state_def geodistance_same)
  have "(1::nat) < length (filtered_rstrts ?s)
            \<and> e_restaurant_id (filtered_rstrts ?s ! 1)
                = restaurant_id (example_rstrt ''1'' ''Pizza Place'' None)
            \<and> (\<forall>j<1. e_restaurant_id (filtered_rstrts ?s ! j)
                \<noteq> restaurant_id (example_rstrt ''1'' ''Pizza Place'' None))"
    by (simp add: example_defs)
  with e have "edit_coord ?s (Some 1) (Some 1)
          = Inr (?s\<lparr>mycol := update_one
                      (has_id (restaurant_id (example_rstrt ''1'' ''Pizza Place'' None)))
                      (set_coord (Some 1) (Some 1)) (mycol ?s),
                   cur_rstrt := Some (set_coord (Some 1) (Some 1)
                      (example_rstrt ''1'' ''Pizza Place'' None)),
                   filtered_rstrts :=
                     (filtered_rstrts ?s)[1 := (filtered_rstrts ?s ! 1)\<lparr>e_dist := Some x\<rparr>]\<rparr>)"
    by blast
  with h x0 show ?thesis
    by (simp add: example_defs set_coord_def has_id_def)
qed

text \<open>
  C3, the code at a failing input. The store holds one restaurant, at the reference
  coordinate; an unfiltered search lists it at the distance 0 and position 0 is selected.
  \<^verbatim>\<open>edit_coord\<close> is then given longitude 0 and latitude 51, no component being none.
  The store and \<^verbatim>\<open>cur_rstrt\<close> get the new coordinate, but the test
  \<^verbatim>\<open>if lng and lat\<close> takes the number 0 for false: the element of the list gets the
  sentinel 99999.99 and not the distance of the new coordinate to the reference
  coordinate, which is below the sentinel.
\<close>

theorem edit_coord_zero_coord_sentinel:
  "update_rstrts fragment_matcher
     (example_state [] None None [example_rstrt ''3'' ''Meridian Cafe'' (Some (Some 1, Some 1))])
     Map.empty
   = Inr (example_state [example_entry ''3'' ''Meridian Cafe'' 0] None None
        [example_rstrt ''3'' ''Meridian Cafe'' (Some (Some 1, Some 1))])
   \<and> update_cur_rstrt
       (example_state [example_entry ''3'' ''Meridian Cafe'' 0] None None
          [example_rstrt ''3'' ''Meridian Cafe'' (Some (Some 1, Some 1))])
       (Some 0)
     = Inr (example_state [example_entry ''3'' ''Meridian Cafe'' 0] (Some 0)
          (Some (example_rstrt ''3'' ''Meridian Cafe'' (Some (Some 1, Some 1))))
          [example_rstrt ''3'' ''Meridian Cafe'' (Some (Some 1, Some 1))])
   \<and> edit_coord
       (example_state [example_entry ''3'' ''Meridian Cafe'' 0] (Some 0)
          (Some (example_rstrt ''3'' ''Meridian Cafe'' (Some (Some 1, Some 1))))
          [example_rstrt ''3'' ''Meridian Cafe'' (Some (Some 1, Some 1))])
       (Some 0) (Some 51)
     = Inr (example_state [example_entry ''3'' ''Meridian Cafe'' 99999.99] (Some 0)
          (Some (example_rstrt ''3'' ''Meridian Cafe'' (Some (Some 0, Some 51))))
          [example_rstrt ''3'' ''Meridian Cafe'' (Some (Some 0, Some 51))])
   \<and> geodistance 0 51 1 1 < 99999.99"
proof -
  have 1: "update_rstrts fragment_matcher
     (example_state [] None None [example_rstrt ''3'' ''Meridian Cafe'' (Some (Some 1, Some 1))])
     Map.empty
   = Inr (example_state [example_entry ''3'' ''Meridian Cafe'' 0] None None
        [example_rstrt ''3'' ''Meridian Cafe'' (Some (Some 1, Some 1))])"
    by (simp add: update_rstrts_empty example_defs with_dist_def project_def truthy_def
        geodistance_same)
  have 2: "update_cur_rstrt
       (example_state [example_entry ''3'' ''Meridian Cafe'' 0] None None
          [example_rstrt ''3'' ''Meridian Cafe'' (Some (Some 1, Some 1))])
       (Some 0)
     = Inr (example_state [example_entry ''3'' ''Meridian Cafe'' 0] (Some 0)
          (Some (example_rstrt ''3'' ''Meridian Cafe'' (Some (Some 1, Some 1))))
          [example_rstrt ''3'' ''Meridian Cafe'' (Some (Some 1, Some 1))])"
    by (simp add: update_cur_rstrt_def py_index_def example_defs has_id_def Let_def)
  have 3: "edit_coord
       (example_state [example_entry ''3'' ''Meridian Cafe'' 0] (Some 0)
          (Some (example_rstrt ''3'' ''Meridian Cafe'' (Some (Some 1, Some 1))))
          [example_rstrt ''3'' ''Meridian Cafe'' (Some (Some 1, Some 1))])
       (Some 0) (Some 51)
     = Inr (example_state [example_entry ''3'' ''Meridian Cafe'' 99999.99] (Some 0)
          (Some (example_rstrt ''3'' ''Meridian Cafe'' (Some (Some 0, Some 51))))
          [example_rstrt ''3'' ''Meridian Cafe'' (Some (Some 0, Some 51))])"
    by (simp add: edit_coord_def example_defs set_coord_def has_id_def truthy_def sentinel_def
        Let_def)
  have 4: "geodistance 0 51 1 1 < 99999.99"
    using geodistance_bounds [of 0 51 1 1] by (simp add: sentinel_def)
  from 1 2 3 4 show ?thesis by (intro conjI)
qed

subsection \<open>Searching: the filter\<close>

text \<open>The matcher agrees with the set of strings a pattern stands for.\<close>

lemma conc_iff: "w \<in> conc A B \<longleftrightarrow> (\<exists>u v. w = u @ v \<and> u \<in> A \<and> v \<in> B)"
  by (auto simp: conc_def)

lemma nullable_iff: "nullable r \<longleftrightarrow> [] \<in> lang ci r"
  by (induction r) (auto simp: conc_iff intro: star.star_empty)

lemma star_Cons_iff:
  "c # w \<in> star A \<longleftrightarrow> (\<exists>u v. w = u @ v \<and> c # u \<in> A \<and> v \<in> star A)"
proof
  assume "c # w \<in> star A"
  then show "\<exists>u v. w = u @ v \<and> c # u \<in> A \<and> v \<in> star A"
  proof (induction "c # w" rule: star.induct)
    case (star_more u v)
    show ?case
    proof (cases u)
      case Nil
      with star_more show ?thesis by simp
    next
      case (Cons d u')
      with star_more.hyps show ?thesis by auto
    qed
  qed
next
  assume "\<exists>u v. w = u @ v \<and> c # u \<in> A \<and> v \<in> star A"
  then obtain u v where "w = u @ v" "c # u \<in> A" "v \<in> star A" by blast
  then show "c # w \<in> star A"
    using star.star_more [of "c # u" A v] by simp
qed

lemma conc_Cons_iff:
  "c # w \<in> conc A B \<longleftrightarrow>
     ([] \<in> A \<and> c # w \<in> B) \<or> (\<exists>u v. w = u @ v \<and> c # u \<in> A \<and> v \<in> B)"
  by (auto simp: conc_iff Cons_eq_append_conv)

lemma deriv_iff: "w \<in> lang ci (deriv ci c r) \<longleftrightarrow> c # w \<in> lang ci r"
proof (induction r arbitrary: w)
  case (Times r s)
  have "w \<in> conc (lang ci (deriv ci c r)) (lang ci s)
      \<longleftrightarrow> (\<exists>u v. w = u @ v \<and> c # u \<in> lang ci r \<and> v \<in> lang ci s)"
    by (simp add: conc_iff Times.IH(1))
  then show ?case
    by (auto simp: conc_Cons_iff nullable_iff [of r ci] Times.IH(2))
next
  case (Star r)
  then show ?case
    by (auto simp: star_Cons_iff conc_iff)
qed auto

lemma match_prefix_iff:
  "match_prefix ci r w \<longleftrightarrow> (\<exists>u v. w = u @ v \<and> u \<in> lang ci r)"
proof (induction w arbitrary: r)
  case Nil
  then show ?case by (simp add: nullable_iff [of r ci])
next
  case (Cons c w)
  show ?case
  proof
    assume "match_prefix ci r (c # w)"
    then consider "nullable r" | "match_prefix ci (deriv ci c r) w" by auto
    then show "\<exists>u v. c # w = u @ v \<and> u \<in> lang ci r"
    proof cases
      case 1
      then have "[] \<in> lang ci r" by (simp add: nullable_iff [of r ci])
      then show ?thesis by force
    next
      case 2
      then obtain u v where "w = u @ v" "u \<in> lang ci (deriv ci c r)"
        using Cons.IH by blast
      then have "c # w = (c # u) @ v" "c # u \<in> lang ci r" by (simp_all add: deriv_iff)
      then show ?thesis by blast
    qed
  next
    assume "\<exists>u v. c # w = u @ v \<and> u \<in> lang ci r"
    then obtain u v where uv: "c # w = u @ v" "u \<in> lang ci r" by blast
    show "match_prefix ci r (c # w)"
    proof (cases u)
      case Nil
      with uv have "nullable r" by (simp add: nullable_iff [of r ci])
      then show ?thesis by simp
    next
      case (Cons d u')
      with uv have "w = u' @ v" "u' \<in> lang ci (deriv ci c r)" by (simp_all add: deriv_iff)
      then have "match_prefix ci (deriv ci c r) w" using Cons.IH by blast
      then show ?thesis by simp
    qed
  qed
qed

lemma re_search_iff:
  "re_search ci r w \<longleftrightarrow> (\<exists>u m v. w = u @ m @ v \<and> m \<in> lang ci r)"
proof (induction w)
  case Nil
  then show ?case by (simp add: nullable_iff [of r ci])
next
  case (Cons c w)
  show ?case
  proof
    assume "re_search ci r (c # w)"
    then consider "match_prefix ci r (c # w)" | "re_search ci r w" by auto
    then show "\<exists>u m v. c # w = u @ m @ v \<and> m \<in> lang ci r"
    proof cases
      case 1
      then obtain m v where "c # w = m @ v" "m \<in> lang ci r"
        unfolding match_prefix_iff by blast
      then have "c # w = [] @ m @ v \<and> m \<in> lang ci r" by simp
      then show ?thesis by blast
    next
      case 2
      then obtain u m v where "w = u @ m @ v" "m \<in> lang ci r" using Cons.IH by blast
      then have "c # w = (c # u) @ m @ v \<and> m \<in> lang ci r" by simp
      then show ?thesis by blast
    qed
  next
    assume "\<exists>u m v. c # w = u @ m @ v \<and> m \<in> lang ci r"
    then obtain u m v where umv: "c # w = u @ m @ v" "m \<in> lang ci r" by blast
    show "re_search ci r (c # w)"
    proof (cases u)
      case Nil
      with umv have "match_prefix ci r (c # w)" unfolding match_prefix_iff by auto
      then show ?thesis by simp
    next
      case (Cons d u')
      with umv have "w = u' @ m @ v" by simp
      with umv(2) have "re_search ci r w" using Cons.IH by blast
      then show ?thesis by simp
    qed
  qed
qed

text \<open>The same for containment as the spec words it.\<close>

lemma starts_with_ignoring_case_iff:
  "starts_with_ignoring_case t w \<longleftrightarrow>
     (\<exists>m v. w = m @ v \<and> map lower_char m = map lower_char t)"
proof (induction t w rule: starts_with_ignoring_case.induct)
  case (3 c cs d ds)
  show ?case
  proof
    assume "starts_with_ignoring_case (c # cs) (d # ds)"
    with 3 obtain m v where "lower_char c = lower_char d" "ds = m @ v"
      "map lower_char m = map lower_char cs" by auto
    then have "d # ds = (d # m) @ v \<and> map lower_char (d # m) = map lower_char (c # cs)"
      by simp
    then show "\<exists>m v. d # ds = m @ v \<and> map lower_char m = map lower_char (c # cs)"
      by blast
  next
    assume "\<exists>m v. d # ds = m @ v \<and> map lower_char m = map lower_char (c # cs)"
    then obtain m v where mv: "d # ds = m @ v" "map lower_char m = map lower_char (c # cs)"
      by blast
    then obtain m' where "m = d # m'" by (cases m) auto
    with mv 3 show "starts_with_ignoring_case (c # cs) (d # ds)" by auto
  qed
qed auto

lemma contains_ignoring_case_iff:
  "contains_ignoring_case t w \<longleftrightarrow>
     (\<exists>u m v. w = u @ m @ v \<and> map lower_char m = map lower_char t)"
proof (induction w)
  case Nil
  then show ?case by (auto simp: starts_with_ignoring_case_iff)
next
  case (Cons c w)
  show ?case
  proof
    assume "contains_ignoring_case t (c # w)"
    then consider "starts_with_ignoring_case t (c # w)" | "contains_ignoring_case t w"
      by auto
    then show "\<exists>u m v. c # w = u @ m @ v \<and> map lower_char m = map lower_char t"
    proof cases
      case 1
      then obtain m v where "c # w = [] @ m @ v \<and> map lower_char m = map lower_char t"
        unfolding starts_with_ignoring_case_iff by auto
      then show ?thesis by blast
    next
      case 2
      then obtain u m v where "w = u @ m @ v" "map lower_char m = map lower_char t"
        using Cons.IH by blast
      then have "c # w = (c # u) @ m @ v \<and> map lower_char m = map lower_char t" by simp
      then show ?thesis by blast
    qed
  next
    assume "\<exists>u m v. c # w = u @ m @ v \<and> map lower_char m = map lower_char t"
    then obtain u m v where umv: "c # w = u @ m @ v" "map lower_char m = map lower_char t"
      by blast
    show "contains_ignoring_case t (c # w)"
    proof (cases u)
      case Nil
      with umv have "starts_with_ignoring_case t (c # w)"
        unfolding starts_with_ignoring_case_iff by auto
      then show ?thesis by simp
    next
      case (Cons d u')
      with umv have "w = u' @ m @ v" by simp
      with umv(2) have "contains_ignoring_case t w" using Cons.IH by blast
      then show ?thesis by simp
    qed
  qed
qed

text \<open>The pattern made from a plain text.\<close>

lemma parse_re_plain:
  "plain t \<Longrightarrow> parse_re (grp # st) (t @ rest) = parse_re ((rev (map Chr t) @ grp) # st) rest"
proof (induction t arbitrary: grp)
  case Nil
  then show ?case by simp
next
  case (Cons c t)
  from Cons.prems have c: "c \<noteq> CHR ''(''" "c \<noteq> CHR '')''" "c \<noteq> CHR ''*''" "c \<noteq> CHR ''.''"
    "\<not> unsupported c" and t: "plain t"
    by (auto simp: plain_def)
  from c have "parse_re (grp # st) ((c # t) @ rest) = parse_re ((Chr c # grp) # st) (t @ rest)"
    by simp
  also have "\<dots> = parse_re ((rev (map Chr t) @ Chr c # grp) # st) rest"
    by (rule Cons.IH [OF t])
  finally show ?case by simp
qed

lemma parse_re_regex_of:
  assumes "plain t"
  shows "parse_re [[]] (regex_of t)
     = Some (seq_of [seq_of [Star Dot], seq_of (map Chr t), seq_of [Star Dot]])"
proof -
  have "parse_re [[]] (regex_of t)
      = parse_re [[], [seq_of [Star Dot]]] (t @ '')(.*)'')"
    by (simp add: regex_of_def unsupported_def)
  also have "\<dots> = parse_re [rev (map Chr t) @ [], [seq_of [Star Dot]]] '')(.*)''"
    using assms by (rule parse_re_plain)
  also have "\<dots> = Some (seq_of [seq_of [Star Dot], seq_of (map Chr t), seq_of [Star Dot]])"
    by (simp add: unsupported_def)
  finally show ?thesis .
qed

lemma conc_char_iff:
  "m \<in> conc {[d] | d. P d} B \<longleftrightarrow> (\<exists>d m'. m = d # m' \<and> P d \<and> m' \<in> B)"
proof
  assume "m \<in> conc {[d] | d. P d} B"
  then obtain u v where "m = u @ v" "u \<in> {[d] | d. P d}" "v \<in> B"
    unfolding conc_iff by blast
  then show "\<exists>d m'. m = d # m' \<and> P d \<and> m' \<in> B" by auto
next
  assume "\<exists>d m'. m = d # m' \<and> P d \<and> m' \<in> B"
  then obtain d m' where "m = [d] @ m'" "P d" "m' \<in> B" by auto
  then have "m = [d] @ m' \<and> [d] \<in> {[d] | d. P d} \<and> m' \<in> B" by blast
  then show "m \<in> conc {[d] | d. P d} B" unfolding conc_iff by blast
qed

lemma lang_seq_of_Chr:
  "m \<in> lang True (seq_of (map Chr t)) \<longleftrightarrow> map lower_char m = map lower_char t"
proof (induction t arbitrary: m)
  case Nil
  then show ?case by (simp add: seq_of_def)
next
  case (Cons c t)
  have "m \<in> lang True (seq_of (map Chr (c # t)))
      \<longleftrightarrow> (\<exists>d m'. m = d # m' \<and> lower_char d = lower_char c \<and> m' \<in> lang True (seq_of (map Chr t)))"
    by (simp add: seq_of_def conc_char_iff char_eq_def)
  also have "\<dots> \<longleftrightarrow> map lower_char m = map lower_char (c # t)"
    unfolding Cons.IH by (cases m) auto
  finally show ?case .
qed

lemma lang_any_empty: "[] \<in> lang ci (seq_of [Star Dot])"
  by (simp add: seq_of_def conc_iff star.star_empty)

lemma regex_match_plain:
  assumes "plain t"
  shows "regex_match (regex_of t) ''$i'' v = Some (contains_ignoring_case t v)"
proof -
  let ?g = "seq_of [Star Dot]"
  let ?r = "seq_of [?g, seq_of (map Chr t), ?g]"
  have m: "m \<in> lang True ?r \<longleftrightarrow>
      (\<exists>a b c. m = a @ b @ c \<and> a \<in> lang True ?g \<and> map lower_char b = map lower_char t
         \<and> c \<in> lang True ?g)" for m
  proof -
    have "?r = Times ?g (Times (seq_of (map Chr t)) (Times ?g One))"
      by (simp add: seq_of_def)
    then show ?thesis
      by (auto simp: conc_iff lang_seq_of_Chr)
  qed
  have "re_search True ?r v \<longleftrightarrow> contains_ignoring_case t v"
  proof
    assume "re_search True ?r v"
    then obtain u m w where "v = u @ m @ w" "m \<in> lang True ?r"
      unfolding re_search_iff by blast
    then obtain a b c where "v = u @ (a @ b @ c) @ w" "map lower_char b = map lower_char t"
      unfolding m by blast
    then have "v = (u @ a) @ b @ (c @ w) \<and> map lower_char b = map lower_char t" by simp
    then show "contains_ignoring_case t v"
      unfolding contains_ignoring_case_iff by blast
  next
    assume "contains_ignoring_case t v"
    then obtain u b w where v: "v = u @ b @ w" and b: "map lower_char b = map lower_char t"
      unfolding contains_ignoring_case_iff by blast
    have "b = [] @ b @ [] \<and> [] \<in> lang True ?g \<and> map lower_char b = map lower_char t
        \<and> [] \<in> lang True ?g"
      using b by (simp add: lang_any_empty)
    then have "b \<in> lang True ?r" unfolding m by blast
    with v show "re_search True ?r v" unfolding re_search_iff by blast
  qed
  then show ?thesis
    by (simp add: regex_match_def parse_re_regex_of [OF assms])
qed

text \<open>What the query built from a condition asks of a document, and of the store.\<close>

lemma constraint_for_holds:
  "list_all (constraint_holds eng d) (constraint_for condition key path) \<longleftrightarrow>
     (case condition key of
        None \<Rightarrow> True
      | Some t \<Rightarrow> t = [] \<or>
          (case get_field path d of
             None \<Rightarrow> False
           | Some v \<Rightarrow> matches eng (regex_of t) ''$i'' v))"
  by (simp add: constraint_for_def constraint_holds_def split: option.splits)

lemma build_query_holds:
  "list_all (constraint_holds eng d) (build_query condition) \<longleftrightarrow>
     constraint_met eng condition ''name'' (name d)
     \<and> constraint_met eng condition ''borough'' (borough d)
     \<and> constraint_met eng condition ''street'' (street (address d))
     \<and> constraint_met eng condition ''zipcode'' (zipcode (address d))"
  by (auto simp: build_query_def constraint_for_holds constraint_met_def get_field_def
      split: option.splits)

lemma constraint_for_accepted:
  "list_all (\<lambda>(path, pattern, options). accepts eng pattern options)
     (constraint_for condition key path) \<longleftrightarrow> pattern_accepted eng condition key"
  by (simp add: constraint_for_def pattern_accepted_def split: option.splits)

lemma build_query_accepted:
  "list_all (\<lambda>(path, pattern, options). accepts eng pattern options) (build_query condition)
   \<longleftrightarrow> pattern_accepted eng condition ''name''
     \<and> pattern_accepted eng condition ''borough''
     \<and> pattern_accepted eng condition ''street''
     \<and> pattern_accepted eng condition ''zipcode''"
  by (simp add: build_query_def constraint_for_accepted)

lemma mycol_find_Some:
  "mycol_find eng q ds = Some found \<Longrightarrow>
   found = filter (\<lambda>d. list_all (constraint_holds eng d) q) ds"
  by (simp add: mycol_find_def split: if_splits)

text \<open>
  The search as a whole: it raises when the store rejects one of the patterns, leaving
  the state as it was, and otherwise returns with the sorted elements of the documents
  that meet every constraint.
\<close>

lemma update_rstrts_cases:
  "update_rstrts eng s condition
   = (if pattern_accepted eng condition ''name''
         \<and> pattern_accepted eng condition ''borough''
         \<and> pattern_accepted eng condition ''street''
         \<and> pattern_accepted eng condition ''zipcode''
      then Inr (s\<lparr>filtered_rstrts :=
             sort_key (\<lambda>e. the (e_dist e))
               (map (with_dist (cur_coord s)) (map project
                  (filter (\<lambda>d. constraint_met eng condition ''name'' (name d)
                             \<and> constraint_met eng condition ''borough'' (borough d)
                             \<and> constraint_met eng condition ''street'' (street (address d))
                             \<and> constraint_met eng condition ''zipcode'' (zipcode (address d)))
                     (mycol s))))\<rparr>)
      else Inl (OperationFailure, s))"
proof (cases "list_all (\<lambda>(path, pattern, options). accepts eng pattern options)
    (build_query condition)")
  case True
  then have "mycol_find eng (build_query condition) (mycol s)
      = Some (filter (\<lambda>d. list_all (constraint_holds eng d) (build_query condition)) (mycol s))"
    by (simp add: mycol_find_def)
  from update_rstrts_Some [OF this]
  have "update_rstrts eng s condition
      = Inr (s\<lparr>filtered_rstrts :=
             sort_key (\<lambda>e. the (e_dist e))
               (map (with_dist (cur_coord s)) (map project
                  (filter (\<lambda>d. constraint_met eng condition ''name'' (name d)
                             \<and> constraint_met eng condition ''borough'' (borough d)
                             \<and> constraint_met eng condition ''street'' (street (address d))
                             \<and> constraint_met eng condition ''zipcode'' (zipcode (address d)))
                     (mycol s))))\<rparr>)"
    by (simp only: build_query_holds)
  moreover from True have "pattern_accepted eng condition ''name''
         \<and> pattern_accepted eng condition ''borough''
         \<and> pattern_accepted eng condition ''street''
         \<and> pattern_accepted eng condition ''zipcode''"
    by (simp only: build_query_accepted)
  ultimately show ?thesis by (simp del: map_map)
next
  case False
  then have "mycol_find eng (build_query condition) (mycol s) = None"
    by (simp add: mycol_find_def)
  then have "update_rstrts eng s condition = Inl (OperationFailure, s)"
    by (simp add: update_rstrts_def)
  moreover from False have "\<not> (pattern_accepted eng condition ''name''
         \<and> pattern_accepted eng condition ''borough''
         \<and> pattern_accepted eng condition ''street''
         \<and> pattern_accepted eng condition ''zipcode'')"
    by (simp add: build_query_accepted)
  ultimately show ?thesis by (simp del: map_map)
qed

text \<open>The reference matcher implements the fragment.\<close>

lemma fragment_matcher_implements: "implements_fragment fragment_matcher"
  by (simp add: implements_fragment_def fragment_matcher_def regex_match_def)

text \<open>
  For a matcher that implements the fragment, the pattern made from a plain text is taken
  and asks for the text as a substring, letter case ignored.
\<close>

lemma implements_fragment_plain:
  assumes "implements_fragment eng" and "plain t"
  shows "accepts eng (regex_of t) ''$i''"
    and "matches eng (regex_of t) ''$i'' v = contains_ignoring_case t v"
proof -
  let ?r = "seq_of [seq_of [Star Dot], seq_of (map Chr t), seq_of [Star Dot]]"
  have p: "parse_re [[]] (regex_of t) = Some ?r"
    using assms(2) by (rule parse_re_regex_of)
  from assms(1) p have a: "accepts eng (regex_of t) ''$i''"
    and m: "matches eng (regex_of t) ''$i'' v = re_search True ?r v"
    unfolding implements_fragment_def by blast+
  from regex_match_plain [OF assms(2), of v] p
  have "re_search True ?r v = contains_ignoring_case t v"
    by (simp add: regex_match_def)
  with a m show "accepts eng (regex_of t) ''$i''"
    and "matches eng (regex_of t) ''$i'' v = contains_ignoring_case t v"
    by simp_all
qed

text \<open>
  C6, counterexample. The store holds Pizza Place and the condition asks for the name
  \<^verbatim>\<open>p.zza\<close>. The name does not contain that text, whatever the letter case, but the
  text goes into the pattern as it is, where its dot stands for any character: the
  restaurant is returned.
\<close>

theorem update_rstrts_pattern_counterexample:
  "\<not> contains_ignoring_case ''p.zza'' ''Pizza Place''
   \<and> update_rstrts fragment_matcher
       (example_state [] None None [example_rstrt ''1'' ''Pizza Place'' None])
       [''name'' \<mapsto> ''p.zza'']
     = Inr (example_state [example_entry ''1'' ''Pizza Place'' sentinel] None None
          [example_rstrt ''1'' ''Pizza Place'' None])"
  by (simp add: update_rstrts_def build_query_def constraint_for_def mycol_find_def
      constraint_holds_def get_field_def fragment_matcher_def regex_match_def regex_of_def
      seq_of_def unsupported_def char_eq_def lower_char_def sort_by_dist_def with_dist_def
      project_def example_defs Let_def)

text \<open>
  C6, as amended. Of the keys \<^verbatim>\<open>name\<close>, \<^verbatim>\<open>borough\<close>, \<^verbatim>\<open>street\<close> and
  \<^verbatim>\<open>zipcode\<close>, one that is absent or empty constrains nothing. One with a non-empty
  text asks that its field (\<^verbatim>\<open>address.street\<close> and \<^verbatim>\<open>address.zipcode\<close> for the last
  two) match, for the store's matcher under the options \<^verbatim>\<open>"$i"\<close>, the pattern
  \<^verbatim>\<open>(.*)(text)(.*)\<close>, into which the text goes as it is and so is read as a pattern
  itself. Whatever the texts are, the search does one of two things: when the store takes
  every pattern, it returns, and the list then holds, sorted by distance, the elements
  made from exactly the stored documents that meet the constraint of each of the four
  keys; when the store rejects a pattern, it raises the store's error and leaves
  everything as it was. For a text without pattern characters, and a matcher that
  implements the fragment of the pattern language modelled here, the pattern is taken and
  the constraint is to contain the text as a substring, letter case ignored.
\<close>

theorem update_rstrts_filter:
  "update_rstrts eng s condition
     = (if pattern_accepted eng condition ''name''
           \<and> pattern_accepted eng condition ''borough''
           \<and> pattern_accepted eng condition ''street''
           \<and> pattern_accepted eng condition ''zipcode''
        then Inr (s\<lparr>filtered_rstrts :=
               sort_key (\<lambda>e. the (e_dist e))
                 (map (with_dist (cur_coord s)) (map project
                    (filter (\<lambda>d. constraint_met eng condition ''name'' (name d)
                               \<and> constraint_met eng condition ''borough'' (borough d)
                               \<and> constraint_met eng condition ''street'' (street (address d))
                               \<and> constraint_met eng condition ''zipcode'' (zipcode (address d)))
                       (mycol s))))\<rparr>)
        else Inl (OperationFailure, s))
   \<and> (\<forall>key v. condition key = None \<or> condition key = Some [] \<longrightarrow>
         pattern_accepted eng condition key \<and> constraint_met eng condition key v)
   \<and> (\<forall>key t v. condition key = Some t \<and> t \<noteq> [] \<longrightarrow>
         pattern_accepted eng condition key = accepts eng (''(.*)('' @ t @ '')(.*)'') ''$i''
         \<and> constraint_met eng condition key v
             = matches eng (''(.*)('' @ t @ '')(.*)'') ''$i'' v)
   \<and> (\<forall>key t v. implements_fragment eng \<and> condition key = Some t \<and> t \<noteq> [] \<and> plain t \<longrightarrow>
         pattern_accepted eng condition key
         \<and> constraint_met eng condition key v = contains_ignoring_case t v)"
proof (intro conjI allI impI)
  show "update_rstrts eng s condition
     = (if pattern_accepted eng condition ''name''
           \<and> pattern_accepted eng condition ''borough''
           \<and> pattern_accepted eng condition ''street''
           \<and> pattern_accepted eng condition ''zipcode''
        then Inr (s\<lparr>filtered_rstrts :=
               sort_key (\<lambda>e. the (e_dist e))
                 (map (with_dist (cur_coord s)) (map project
                    (filter (\<lambda>d. constraint_met eng condition ''name'' (name d)
                               \<and> constraint_met eng condition ''borough'' (borough d)
                               \<and> constraint_met eng condition ''street'' (street (address d))
                               \<and> constraint_met eng condition ''zipcode'' (zipcode (address d)))
                       (mycol s))))\<rparr>)
        else Inl (OperationFailure, s))"
    by (rule update_rstrts_cases)
next
  fix key v
  assume a: "condition key = None \<or> condition key = Some []"
  from a show "pattern_accepted eng condition key"
    by (auto simp: pattern_accepted_def)
  from a show "constraint_met eng condition key v"
    by (auto simp: constraint_met_def)
next
  fix key t v
  assume a: "condition key = Some t \<and> t \<noteq> []"
  from a show "pattern_accepted eng condition key
      = accepts eng (''(.*)('' @ t @ '')(.*)'') ''$i''"
    by (simp add: pattern_accepted_def regex_of_def)
  from a show "constraint_met eng condition key v
      = matches eng (''(.*)('' @ t @ '')(.*)'') ''$i'' v"
    by (simp add: constraint_met_def regex_of_def)
next
  fix key t v
  assume a: "implements_fragment eng \<and> condition key = Some t \<and> t \<noteq> [] \<and> plain t"
  then have i: "implements_fragment eng" and p: "plain t" by simp_all
  from a implements_fragment_plain(1) [OF i p] show "pattern_accepted eng condition key"
    by (simp add: pattern_accepted_def)
  from a implements_fragment_plain(2) [OF i p, of v]
  show "constraint_met eng condition key v = contains_ignoring_case t v"
    by (simp add: constraint_met_def)
qed

theorem update_rstrts_filter_witness:
  "update_rstrts fragment_matcher
     (example_state [] None None
        [example_rstrt ''2'' ''Sushi Bar'' (Some (Some 1, Some 1)),
         example_rstrt ''1'' ''Pizza Place'' (Some (Some 1, Some 1))])
     [''name'' \<mapsto> ''pizza'']
   = Inr (example_state [example_entry ''1'' ''Pizza Place'' 0] None None
        [example_rstrt ''2'' ''Sushi Bar'' (Some (Some 1, Some 1)),
         example_rstrt ''1'' ''Pizza Place'' (Some (Some 1, Some 1))])
   \<and> update_rstrts
       \<lparr>accepts = (\<lambda>pattern options. False), matches = (\<lambda>pattern options subject. False)\<rparr>
       (example_state [] None None [example_rstrt ''1'' ''Pizza Place'' None])
       [''name'' \<mapsto> ''pizza'']
     = Inl (OperationFailure,
         example_state [] None None [example_rstrt ''1'' ''Pizza Place'' None])
   \<and> constraint_met fragment_matcher [''name'' \<mapsto> ''pizza''] ''name'' ''Pizza Place''
   \<and> \<not> constraint_met fragment_matcher [''name'' \<mapsto> ''pizza''] ''name'' ''Sushi Bar''
   \<and> constraint_met fragment_matcher [''name'' \<mapsto> ''pizza''] ''borough'' ''''"
proof -
  let ?s = "example_state [] None None
        [example_rstrt ''2'' ''Sushi Bar'' (Some (Some 1, Some 1)),
         example_rstrt ''1'' ''Pizza Place'' (Some (Some 1, Some 1))]"
  let ?c = "[''name'' \<mapsto> ''pizza'']"
  let ?deaf = "\<lparr>accepts = (\<lambda>pattern options. False),
      matches = (\<lambda>pattern options subject. False)\<rparr>"
  let ?z = "example_state [] None None [example_rstrt ''1'' ''Pizza Place'' None]"
  have p: "plain ''pizza''"
    by (simp add: plain_def unsupported_def)
  note f = update_rstrts_filter [of fragment_matcher ?s ?c]
  note absent = f [THEN conjunct2, THEN conjunct1, rule_format]
  note plain_text = f [THEN conjunct2, THEN conjunct2, THEN conjunct2, rule_format]
  have q: "implements_fragment fragment_matcher \<and> ?c ''name'' = Some ''pizza''
      \<and> ''pizza'' \<noteq> [] \<and> plain ''pizza''"
    using p by (simp add: fragment_matcher_implements)
  have r: "constraint_met fragment_matcher ?c ''name'' v = contains_ignoring_case ''pizza'' v"
    for v
    using plain_text [OF q] by simp
  have a: "pattern_accepted fragment_matcher ?c ''name''"
    using plain_text [OF q] by simp
  have b: "pattern_accepted fragment_matcher ?c ''borough''"
    "pattern_accepted fragment_matcher ?c ''street''"
    "pattern_accepted fragment_matcher ?c ''zipcode''"
    by (rule absent [THEN conjunct1], simp)+
  have 1: "constraint_met fragment_matcher ?c ''name'' ''Pizza Place''"
    unfolding r by (simp add: lower_char_def)
  have 2: "\<not> constraint_met fragment_matcher ?c ''name'' ''Sushi Bar''"
    unfolding r by (simp add: lower_char_def)
  have 3: "constraint_met fragment_matcher ?c ''borough'' ''''"
    by (rule absent [THEN conjunct2]) simp
  have 4: "constraint_met fragment_matcher ?c ''street'' ''''"
    "constraint_met fragment_matcher ?c ''zipcode'' ''''"
    by (rule absent [THEN conjunct2], simp)+
  have 5: "update_rstrts fragment_matcher ?s ?c
      = Inr (example_state [example_entry ''1'' ''Pizza Place'' 0] None None
        [example_rstrt ''2'' ''Sushi Bar'' (Some (Some 1, Some 1)),
         example_rstrt ''1'' ''Pizza Place'' (Some (Some 1, Some 1))])"
    unfolding f [THEN conjunct1] using a b 1 2 3 4
    by (simp add: example_defs with_dist_def project_def truthy_def geodistance_same)
  have "\<not> pattern_accepted ?deaf ?c ''name''"
    by (simp add: pattern_accepted_def)
  then have 6: "update_rstrts ?deaf ?z ?c = Inl (OperationFailure, ?z)"
    unfolding update_rstrts_filter [of ?deaf ?z ?c, THEN conjunct1] by simp
  from 5 6 1 2 3 show ?thesis by simp
qed

subsection \<open>Searching: the distances\<close>

lemma with_dist_le_sentinel:
  "\<exists>x. e_dist (with_dist cc p) = Some x \<and> x \<le> sentinel"
  using geodistance_bounds
  by (auto simp: with_dist_def less_imp_le split: option.splits)

text \<open>
  The element \<^verbatim>\<open>update_rstrts\<close> makes from a stored document has the document's
  id and name; its distance is the sentinel when the coordinate or one of its components
  is missing, and the Haversine distance to the reference coordinate, in kilometres
  rounded to three places and below the sentinel, when both components are numbers other
  than zero. In the list a search leaves, no element with the sentinel stands before an
  element with another distance.
\<close>

theorem update_rstrts_distances:
  assumes "update_rstrts eng s condition = Inr s'"
  shows "(\<forall>e \<in> set (filtered_rstrts s'). \<exists>d \<in> set (mycol s).
            e = with_dist (cur_coord s) (project d))
     \<and> (\<forall>d. e_restaurant_id (with_dist (cur_coord s) (project d)) = restaurant_id d
            \<and> e_name (with_dist (cur_coord s) (project d)) = name d)
     \<and> (\<forall>d. coord (address d) = None
              \<or> (\<exists>c. coord (address d) = Some (None, c) \<or> coord (address d) = Some (c, None))
            \<longrightarrow> e_dist (with_dist (cur_coord s) (project d)) = Some sentinel)
     \<and> (\<forall>d x y. coord (address d) = Some (Some x, Some y) \<and> x \<noteq> 0 \<and> y \<noteq> 0 \<longrightarrow>
            e_dist (with_dist (cur_coord s) (project d))
              = Some (py_round3 (haversine_km x y (fst (cur_coord s)) (snd (cur_coord s))))
            \<and> py_round3 (haversine_km x y (fst (cur_coord s)) (snd (cur_coord s))) < sentinel)
     \<and> (\<forall>i j. i < length (filtered_rstrts s') \<and> j < length (filtered_rstrts s')
            \<and> e_dist (filtered_rstrts s' ! i) = Some sentinel
            \<and> e_dist (filtered_rstrts s' ! j) \<noteq> Some sentinel \<longrightarrow> j < i)"
proof (intro conjI allI impI ballI)
  from assms obtain ds where ds: "mycol_find eng (build_query condition) (mycol s) = Some ds"
    and s': "filtered_rstrts s'
       = sort_key (\<lambda>e. the (e_dist e)) (map (with_dist (cur_coord s)) (map project ds))"
    unfolding update_rstrts_Inr_iff by auto
  from mycol_find_Some [OF ds] have sub: "set ds \<subseteq> set (mycol s)" by auto
  {
    fix e assume "e \<in> set (filtered_rstrts s')"
    with s' sub show "\<exists>d \<in> set (mycol s). e = with_dist (cur_coord s) (project d)"
      by auto
  }
  have le: "\<exists>x. e_dist e = Some x \<and> x \<le> sentinel" if "e \<in> set (filtered_rstrts s')" for e
    using that s' with_dist_le_sentinel [of "cur_coord s"] by auto
  have sorted: "sorted (map (\<lambda>e. the (e_dist e)) (filtered_rstrts s'))"
    unfolding s' by (rule sorted_sort_key)
  {
    fix i j
    assume a: "i < length (filtered_rstrts s') \<and> j < length (filtered_rstrts s')
            \<and> e_dist (filtered_rstrts s' ! i) = Some sentinel
            \<and> e_dist (filtered_rstrts s' ! j) \<noteq> Some sentinel"
    show "j < i"
    proof (rule ccontr)
      assume "\<not> j < i"
      then have "i \<le> j" by simp
      with sorted a have "map (\<lambda>e. the (e_dist e)) (filtered_rstrts s') ! i
          \<le> map (\<lambda>e. the (e_dist e)) (filtered_rstrts s') ! j"
        by (intro sorted_nth_mono) simp_all
      with a have "the (e_dist (filtered_rstrts s' ! i))
          \<le> the (e_dist (filtered_rstrts s' ! j))"
        by simp
      moreover from a le [of "filtered_rstrts s' ! j"]
      obtain x where "e_dist (filtered_rstrts s' ! j) = Some x" "x \<le> sentinel" by auto
      ultimately show False using a by auto
    qed
  }
next
  fix d :: restaurant
  show "e_restaurant_id (with_dist (cur_coord s) (project d)) = restaurant_id d"
    by (simp add: with_dist_def project_def)
  show "e_name (with_dist (cur_coord s) (project d)) = name d"
    by (simp add: with_dist_def project_def)
next
  fix d :: restaurant
  assume "coord (address d) = None
     \<or> (\<exists>c. coord (address d) = Some (None, c) \<or> coord (address d) = Some (c, None))"
  then show "e_dist (with_dist (cur_coord s) (project d)) = Some sentinel"
    by (auto simp: with_dist_def project_def truthy_def)
next
  fix d :: restaurant and x y :: real
  assume "coord (address d) = Some (Some x, Some y) \<and> x \<noteq> 0 \<and> y \<noteq> 0"
  then show "e_dist (with_dist (cur_coord s) (project d))
      = Some (py_round3 (haversine_km x y (fst (cur_coord s)) (snd (cur_coord s))))"
    by (simp add: with_dist_def project_def truthy_def geodistance_haversine)
next
  fix x y :: real
  show "py_round3 (haversine_km x y (fst (cur_coord s)) (snd (cur_coord s))) < sentinel"
    using geodistance_bounds [of x y "fst (cur_coord s)" "snd (cur_coord s)"]
    by (simp add: geodistance_haversine)
qed

theorem update_rstrts_distances_witness:
  "update_rstrts fragment_matcher
     (example_state [] None None
        [example_rstrt ''2'' ''Sushi Bar'' (Some (None, None)),
         example_rstrt ''1'' ''Pizza Place'' (Some (Some 1, Some 1))])
     Map.empty
   = Inr (example_state
        [example_entry ''1'' ''Pizza Place'' 0, example_entry ''2'' ''Sushi Bar'' sentinel]
        None None
        [example_rstrt ''2'' ''Sushi Bar'' (Some (None, None)),
         example_rstrt ''1'' ''Pizza Place'' (Some (Some 1, Some 1))])
   \<and> e_dist (with_dist (1, 1) (project (example_rstrt ''2'' ''Sushi Bar'' (Some (None, None)))))
     = Some sentinel
   \<and> e_dist (with_dist (1, 1)
        (project (example_rstrt ''1'' ''Pizza Place'' (Some (Some 1, Some 1)))))
     = Some (py_round3 (haversine_km 1 1 1 1))"
proof -
  let ?s = "example_state [] None None
        [example_rstrt ''2'' ''Sushi Bar'' (Some (None, None)),
         example_rstrt ''1'' ''Pizza Place'' (Some (Some 1, Some 1))]"
  have h: "update_rstrts fragment_matcher ?s Map.empty
   = Inr (example_state
        [example_entry ''1'' ''Pizza Place'' 0, example_entry ''2'' ''Sushi Bar'' sentinel]
        None None
        [example_rstrt ''2'' ''Sushi Bar'' (Some (None, None)),
         example_rstrt ''1'' ''Pizza Place'' (Some (Some 1, Some 1))])"
    by (simp add: update_rstrts_empty example_defs with_dist_def project_def truthy_def
        geodistance_same sentinel_def)
  note f = update_rstrts_distances [OF h]
  note missing = f [THEN conjunct2, THEN conjunct2, THEN conjunct1, rule_format]
  note present = f [THEN conjunct2, THEN conjunct2, THEN conjunct2, THEN conjunct1,
      rule_format, THEN conjunct1]
  have c: "cur_coord ?s = (1, 1)" by (simp add: example_state_def)
  have 1: "e_dist (with_dist (1, 1)
       (project (example_rstrt ''2'' ''Sushi Bar'' (Some (None, None))))) = Some sentinel"
    using missing [of "example_rstrt ''2'' ''Sushi Bar'' (Some (None, None))"]
    unfolding c by (simp add: example_rstrt_def)
  have 2: "e_dist (with_dist (1, 1)
        (project (example_rstrt ''1'' ''Pizza Place'' (Some (Some 1, Some 1)))))
     = Some (py_round3 (haversine_km 1 1 1 1))"
    using present [of "example_rstrt ''1'' ''Pizza Place'' (Some (Some 1, Some 1))" 1 1]
    unfolding c by (simp add: example_rstrt_def)
  from h 1 2 show ?thesis by simp
qed

end
